theory Spec2Isabelle
  imports Main "HOL-Library.Word"
begin

section \<open>JavaScript values\<close>

text \<open>
  Both \<^verbatim>\<open>src/pages/api/generate.ts\<close> (the proxy route) and the \<^verbatim>\<open>ImageGenerator\<close>
  component handle values that come out of \<^verbatim>\<open>response.json()\<close> and are typed \<^verbatim>\<open>any\<close>.
  They are modelled as they are at run time: a JSON value or \<^verbatim>\<open>undefined\<close>.
  An object is the list of its own properties in enumeration order.

  The program never computes with a number it receives: it tests it for truthiness,
  prints it and serialises it. A number is therefore given by its rendering, the string
  \<^verbatim>\<open>Number.prototype.toString\<close> returns for it: \<^verbatim>\<open>7\<close>, \<^verbatim>\<open>-0.5\<close>, \<^verbatim>\<open>1e+21\<close>,
  \<^verbatim>\<open>Infinity\<close> (which \<^verbatim>\<open>JSON.parse\<close> yields for \<^verbatim>\<open>1e999\<close>), \<^verbatim>\<open>NaN\<close>. The rendering
  tells two numbers apart, except that both zeros render as \<^verbatim>\<open>0\<close>; nothing in the
  program tells them apart either.
\<close>

datatype jsval =
    JUndefined
  | JNull
  | JBool bool
  | JNum string
  | JStr string
  | JArr "jsval list"
  | JObj "(string \<times> jsval) list"

text \<open>
  Truthiness, as tested by \<^verbatim>\<open>!x\<close>, \<^verbatim>\<open>if (x)\<close> and \<^verbatim>\<open>x || y\<close>. The falsy numbers are
  the two zeros and \<^verbatim>\<open>NaN\<close>.
\<close>

fun truthy :: "jsval \<Rightarrow> bool" where
  "truthy JUndefined = False"
| "truthy JNull = False"
| "truthy (JBool b) = b"
| "truthy (JNum n) = (n \<noteq> ''0'' \<and> n \<noteq> ''NaN'')"
| "truthy (JStr s) = (s \<noteq> [])"
| "truthy (JArr xs) = True"
| "truthy (JObj kvs) = True"

text \<open>\<^verbatim>\<open>a || b\<close>: the left operand when it is truthy, else the right one.\<close>

definition js_or :: "jsval \<Rightarrow> jsval \<Rightarrow> jsval" where
  "js_or a b = (if truthy a then a else b)"

text \<open>
  \<^verbatim>\<open>a || b\<close> where evaluating \<open>b\<close> may raise (\<open>None\<close>): \<open>b\<close> is evaluated only when
  \<open>a\<close> is falsy.
\<close>

definition js_or_raising :: "jsval \<Rightarrow> jsval option \<Rightarrow> jsval option" where
  "js_or_raising a b = (if truthy a then Some a else b)"

text \<open>
  Reading a property of \<^verbatim>\<open>null\<close> or \<^verbatim>\<open>undefined\<close> raises a TypeError; every use
  of \<open>jget\<close> below is guarded by \<open>nullish\<close>. On any other value a missing property
  reads as \<^verbatim>\<open>undefined\<close>. None of the property names the program reads
  (\<^verbatim>\<open>prompt apiKey image imageUrl variant detail message error sample polling_url
  status result url\<close>) is inherited from a built-in prototype, so a primitive or an array
  has none of them.
\<close>

fun nullish :: "jsval \<Rightarrow> bool" where
  "nullish JUndefined = True"
| "nullish JNull = True"
| "nullish v = False"

fun jget :: "jsval \<Rightarrow> string \<Rightarrow> jsval" where
  "jget (JObj kvs) k = (case map_of kvs k of None \<Rightarrow> JUndefined | Some v \<Rightarrow> v)"
| "jget v k = JUndefined"

text \<open>\<^verbatim>\<open>v?.k\<close>: optional chaining.\<close>

definition opt_prop :: "jsval \<Rightarrow> string \<Rightarrow> jsval" where
  "opt_prop v k = (if nullish v then JUndefined else jget v k)"

subsection \<open>Printing\<close>

definition digit :: "nat \<Rightarrow> char" where
  "digit n = ''0123456789'' ! (n mod 10)"

fun show_nat :: "nat \<Rightarrow> string" where
  "show_nat n = (if n < 10 then [digit n] else show_nat (n div 10) @ [digit n])"

declare show_nat.simps [simp del]

fun join :: "string \<Rightarrow> string list \<Rightarrow> string" where
  "join sep [] = []"
| "join sep [x] = x"
| "join sep (x # y # ys) = x @ sep @ join sep (y # ys)"

text \<open>
  \<^verbatim>\<open>ToString\<close>, which a template literal \<^verbatim>\<open>`${v}`\<close> and \<^verbatim>\<open>new Error(v)\<close> apply to
  \<open>v\<close>; \<open>None\<close> is a TypeError. An object is converted by the \<^verbatim>\<open>toString\<close> it
  has. A plain object inherits the one that returns \<^verbatim>\<open>[object Object]\<close>; but a property of
  its own named \<^verbatim>\<open>toString\<close> hides that one, is not callable (no value here is), and
  \<^verbatim>\<open>valueOf\<close>, tried next, returns no primitive: the conversion raises. An array joins
  the conversions of its elements with commas, \<^verbatim>\<open>null\<close> and \<^verbatim>\<open>undefined\<close> elements
  being empty, and raises when one of them does.
\<close>

fun to_string :: "jsval \<Rightarrow> string option"
  and elem_strings :: "jsval list \<Rightarrow> string list option" where
  "to_string JUndefined = Some ''undefined''"
| "to_string JNull = Some ''null''"
| "to_string (JBool b) = Some (if b then ''true'' else ''false'')"
| "to_string (JNum n) = Some n"
| "to_string (JStr s) = Some s"
| "to_string (JArr xs) = map_option (join '','') (elem_strings xs)"
| "to_string (JObj kvs) =
     (case map_of kvs ''toString'' of None \<Rightarrow> Some ''[object Object]'' | Some f \<Rightarrow> None)"
| "elem_strings [] = Some []"
| "elem_strings (v # vs) =
     (case (if nullish v then Some [] else to_string v) of
        None \<Rightarrow> None
      | Some s \<Rightarrow> map_option ((#) s) (elem_strings vs))"

text \<open>
  \<^verbatim>\<open>JSON.stringify\<close>. A string is quoted with the escapes of ECMA-262
  (\<^verbatim>\<open>QuoteJSONString\<close>); characters are code units below 256. A finite number is
  printed as \<^verbatim>\<open>ToString\<close> prints it, any other as \<^verbatim>\<open>null\<close>. A property named
  \<^verbatim>\<open>toJSON\<close> would be called if it were callable; no value here is.
\<close>

definition hex_digit :: "nat \<Rightarrow> char" where
  "hex_digit n = ''0123456789abcdef'' ! (n mod 16)"

definition escape_char :: "char \<Rightarrow> string" where
  "escape_char c =
    (if c = CHR 0x22 then [CHR 0x5C, CHR 0x22]
     else if c = CHR 0x5C then [CHR 0x5C, CHR 0x5C]
     else if c = CHR 0x08 then [CHR 0x5C, CHR ''b'']
     else if c = CHR 0x0C then [CHR 0x5C, CHR ''f'']
     else if c = CHR 0x0A then [CHR 0x5C, CHR ''n'']
     else if c = CHR 0x0D then [CHR 0x5C, CHR ''r'']
     else if c = CHR 0x09 then [CHR 0x5C, CHR ''t'']
     else if of_char c < (32 :: nat)
       then [CHR 0x5C, CHR ''u'', CHR ''0'', CHR ''0'',
             hex_digit (of_char c div 16), hex_digit (of_char c)]
     else [c])"

definition quote :: "string \<Rightarrow> string" where
  "quote s = [CHR 0x22] @ concat (map escape_char s) @ [CHR 0x22]"

fun stringify :: "jsval \<Rightarrow> string"
  and stringify_elems :: "jsval list \<Rightarrow> string list"
  and stringify_props :: "(string \<times> jsval) list \<Rightarrow> string list" where
  "stringify JUndefined = ''null''"
| "stringify JNull = ''null''"
| "stringify (JBool b) = (if b then ''true'' else ''false'')"
| "stringify (JNum n) =
     (if n \<in> set [''Infinity'', ''-Infinity'', ''NaN''] then ''null'' else n)"
| "stringify (JStr s) = quote s"
| "stringify (JArr xs) = ''['' @ join '','' (stringify_elems xs) @ '']''"
| "stringify (JObj kvs) = ''{'' @ join '','' (stringify_props kvs) @ ''}''"
| "stringify_elems [] = []"
| "stringify_elems (v # vs) = stringify v # stringify_elems vs"
| "stringify_props [] = []"
| "stringify_props ((k, v) # kvs) =
     (if v = JUndefined then stringify_props kvs
      else (quote k @ '':'' @ stringify v) # stringify_props kvs)"

text \<open>
  At top level \<^verbatim>\<open>JSON.stringify(undefined)\<close> is \<^verbatim>\<open>undefined\<close>, not a string; inside
  an array an \<^verbatim>\<open>undefined\<close> element prints as \<^verbatim>\<open>null\<close> and inside an object the
  property is left out.
\<close>

definition JSON_stringify :: "jsval \<Rightarrow> jsval" where
  "JSON_stringify v = (if v = JUndefined then JUndefined else JStr (stringify v))"

text \<open>
  \<^verbatim>\<open>btoa\<close> of the binary string built from a \<^verbatim>\<open>Uint8Array\<close>: standard base64 with
  padding.
\<close>

definition b64 :: "nat \<Rightarrow> char" where
  "b64 n = ''ABCDEFGHIJKLMNOPQRSTUVWXYZabcdefghijklmnopqrstuvwxyz0123456789+/'' ! (n mod 64)"

fun btoa :: "8 word list \<Rightarrow> string" where
  "btoa [] = []"
| "btoa [a] =
     [b64 (unat a div 4), b64 (unat a mod 4 * 16), CHR ''='', CHR ''='']"
| "btoa [a, b] =
     [b64 (unat a div 4), b64 (unat a mod 4 * 16 + unat b div 16),
      b64 (unat b mod 16 * 4), CHR ''='']"
| "btoa (a # b # c # bs) =
     [b64 (unat a div 4), b64 (unat a mod 4 * 16 + unat b div 16),
      b64 (unat b mod 16 * 4 + unat c div 64), b64 (unat c mod 64)] @ btoa bs"

text \<open>
  \<^verbatim>\<open>String.prototype.trim\<close>: strips white space and line terminators from both ends.
  Among the code units below 256 these are TAB, LF, VT, FF, CR, SPACE and NBSP.
\<close>

definition is_space :: "char \<Rightarrow> bool" where
  "is_space c = (c \<in> set [CHR 0x09, CHR 0x0A, CHR 0x0B, CHR 0x0C, CHR 0x0D, CHR 0x20, CHR 0xA0])"

definition trim :: "string \<Rightarrow> string" where
  "trim s = rev (dropWhile is_space (rev (dropWhile is_space s)))"

section \<open>The generation proxy (\<^verbatim>\<open>src/pages/api/generate.ts\<close>)\<close>

subsection \<open>The network\<close>

text \<open>
  What \<^verbatim>\<open>fetch\<close> resolves to, as far as the route reads it: the \<^verbatim>\<open>ok\<close> flag, the
  \<^verbatim>\<open>status\<close> code, and what \<^verbatim>\<open>json()\<close>, \<^verbatim>\<open>text()\<close> and \<^verbatim>\<open>arrayBuffer()\<close>
  resolve to when the route calls them, each \<open>None\<close> when it rejects: \<^verbatim>\<open>json()\<close> on a
  body that is not JSON, \<^verbatim>\<open>text()\<close> and \<^verbatim>\<open>arrayBuffer()\<close> when the body cannot be
  read (the route calls \<^verbatim>\<open>text()\<close> only after \<^verbatim>\<open>json()\<close> has failed, and a runtime may
  refuse to read a body a second time). A \<^verbatim>\<open>fetch\<close> that rejects, for the network or
  because it refuses its arguments, is \<open>NetworkError\<close>.
\<close>

record response =
  ok :: bool
  status :: nat
  json :: "jsval option"
  text_body :: "string option"
  arrayBuffer :: "8 word list option"

datatype fetch_outcome = NetworkError | Responded response

text \<open>The body the route submits to the provider (lines 28-40).\<close>

record request_body =
  rb_prompt :: jsval
  width :: nat
  height :: nat
  prompt_upsampling :: bool
  input_image :: "jsval option"

text \<open>
  The three places where the route calls \<^verbatim>\<open>fetch\<close>: \<^verbatim>\<open>fetch(url)\<close> in
  \<^verbatim>\<open>urlToBase64\<close>, the POST to the provider with the \<^verbatim>\<open>X-Key\<close> header and the body,
  and the GET of the polling URL with the \<^verbatim>\<open>X-Key\<close> header.
\<close>

datatype fetch_call =
    GetImage jsval
  | PostSubmit string jsval request_body
  | GetPoll jsval jsval

text \<open>
  What the route sends back: \<^verbatim>\<open>new Response(JSON.stringify({ url }))\<close> with the default
  status 200, or \<^verbatim>\<open>new Response(JSON.stringify({ error }), { status })\<close>. The body is
  given by the value that is serialised.
\<close>

datatype reply_body = UrlBody jsval | ErrorBody jsval

record reply =
  reply_status :: nat
  reply_body :: reply_body

text \<open>
  \<^verbatim>\<open>new Response(body, { status })\<close> with a body that is not \<^verbatim>\<open>null\<close>, as on lines
  60-63 and 100-103, where the status is the provider's. The constructor converts the
  status to an \<^verbatim>\<open>unsigned short\<close>, raises a RangeError unless it lies between 200 and
  599, and raises a TypeError when it is a status that allows no body: 204, 205 or 304
  (101 and 103, the other two, are below 200). \<open>None\<close> is an exception. With the
  literal statuses 400 and 500 and the default 200 of the other replies it does not
  raise.
\<close>

definition null_body_status :: "nat \<Rightarrow> bool" where
  "null_body_status n = (n \<in> set [101, 103, 204, 205, 304])"

definition new_Response :: "reply_body \<Rightarrow> nat \<Rightarrow> reply option" where
  "new_Response body init_status =
    (let code = init_status mod 65536 in
     if code < 200 \<or> 599 < code \<or> null_body_status code then None
     else Some \<lparr>reply_status = code, reply_body = body\<rparr>)"

text \<open>
  How a run of the handler ends: it returns a reply, an exception escapes it, or it is
  suspended on a \<^verbatim>\<open>fetch\<close> whose outcome the given network script does not contain.
\<close>

datatype outcome = Returned reply | Threw | Awaiting

definition BFL_API_9B :: string where
  "BFL_API_9B = ''https://api.bfl.ai/v1/flux-2-klein-9b''"

definition BFL_API_4B :: string where
  "BFL_API_4B = ''https://api.bfl.ai/v1/flux-2-klein-4b''"

subsection \<open>The route\<close>

text \<open>
  \<^verbatim>\<open>urlToBase64\<close> (lines 6-15), given the outcome of its \<^verbatim>\<open>fetch\<close>: the loop turns
  each byte of the body into the character with that code and \<^verbatim>\<open>btoa\<close> encodes
  them. It does not look at \<^verbatim>\<open>ok\<close>. \<open>None\<close> is an exception.
\<close>

definition urlToBase64 :: "fetch_outcome \<Rightarrow> string option" where
  "urlToBase64 x =
    (case x of
       NetworkError \<Rightarrow> None
     | Responded response \<Rightarrow>
         (case arrayBuffer response of None \<Rightarrow> None | Some bytes \<Rightarrow> Some (btoa bytes)))"

text \<open>
  Lines 53-59 and 93-99, which differ in the prefix of the default message only
  (\<^verbatim>\<open>BFL API error\<close>, \<^verbatim>\<open>Poll error\<close>). When \<^verbatim>\<open>json()\<close> rejects, or resolves to
  \<^verbatim>\<open>null\<close> so that reading \<^verbatim>\<open>errorData.detail\<close> raises inside the \<^verbatim>\<open>try\<close>, the
  \<^verbatim>\<open>catch\<close> takes the text of the response, or the default when the text is empty; when
  \<^verbatim>\<open>text()\<close> rejects there, the exception escapes (\<open>None\<close>).
\<close>

definition error_message :: "string \<Rightarrow> response \<Rightarrow> jsval option" where
  "error_message prefix r =
    (let errorMessage = JStr (prefix @ '' ('' @ show_nat (status r) @ '')'');
         caught = (case text_body r of
                     None \<Rightarrow> None
                   | Some t \<Rightarrow> Some (js_or (JStr t) errorMessage))
     in
     case json r of
       None \<Rightarrow> caught
     | Some errorData \<Rightarrow>
         if nullish errorData then caught
         else Some (js_or (jget errorData ''detail'')
                     (js_or (jget errorData ''message'')
                       (js_or (jget errorData ''error'') (JSON_stringify errorData)))))"

text \<open>
  Lines 52-64 and 92-104: the reply to a response that is not \<^verbatim>\<open>ok\<close>. The handler
  has no \<^verbatim>\<open>try\<close> around it: an exception of the constructor escapes it.
\<close>

definition error_reply :: "string \<Rightarrow> response \<Rightarrow> outcome" where
  "error_reply prefix r =
    (case error_message prefix r of
       None \<Rightarrow> Threw
     | Some errorMessage \<Rightarrow>
         (case new_Response (ErrorBody errorMessage) (status r) of
            None \<Rightarrow> Threw
          | Some reply \<Rightarrow> Returned reply))"

text \<open>
  The polling loop (lines 85-125). The script lists the outcomes of the polls still to
  come; \<open>calls\<close> are the calls issued so far. The loop has no bound of its own: on a
  script that ends before the loop does, the run is \<open>Awaiting\<close> the next poll. The
  500 ms pause before each poll is not modelled. On line 120 the template literal is
  evaluated only when \<^verbatim>\<open>error\<close>, \<^verbatim>\<open>message\<close> and \<^verbatim>\<open>detail\<close> are all falsy, and
  raises when the status cannot be converted to a string.
\<close>

fun poll_loop :: "jsval \<Rightarrow> jsval \<Rightarrow> fetch_outcome list \<Rightarrow> fetch_call list
    \<Rightarrow> outcome \<times> fetch_call list" where
  "poll_loop pollUrl apiKey [] calls = (Awaiting, calls @ [GetPoll pollUrl apiKey])"
| "poll_loop pollUrl apiKey (NetworkError # net) calls =
     (Threw, calls @ [GetPoll pollUrl apiKey])"
| "poll_loop pollUrl apiKey (Responded pollRes # net) calls =
     (let calls' = calls @ [GetPoll pollUrl apiKey] in
      if \<not> ok pollRes then (error_reply ''Poll error'' pollRes, calls')
      else case json pollRes of
        None \<Rightarrow> (Threw, calls')
      | Some result \<Rightarrow>
          if nullish result then (Threw, calls')
          else if jget result ''status'' = JStr ''Ready''
                  \<and> truthy (opt_prop (jget result ''result'') ''sample'') then
            (Returned \<lparr>reply_status = 200,
                       reply_body = UrlBody (jget (jget result ''result'') ''sample'')\<rparr>, calls')
          else if jget result ''status'' = JStr ''Pending'' then
            poll_loop pollUrl apiKey net calls'
          else
            (case js_or_raising (jget result ''error'')
                    (js_or_raising (jget result ''message'')
                      (js_or_raising (jget result ''detail'')
                        (map_option (\<lambda>s. JStr (''Generation failed: '' @ s))
                          (to_string (jget result ''status''))))) of
               None \<Rightarrow> (Threw, calls')
             | Some errorMessage \<Rightarrow>
                 (Returned \<lparr>reply_status = 500, reply_body = ErrorBody errorMessage\<rparr>,
                  calls')))"

text \<open>Lines 42-83: the submission and what its response leads to.\<close>

definition submit :: "string \<Rightarrow> jsval \<Rightarrow> request_body \<Rightarrow> fetch_outcome list \<Rightarrow> fetch_call list
    \<Rightarrow> outcome \<times> fetch_call list" where
  "submit apiUrl apiKey requestBody net calls =
    (let calls' = calls @ [PostSubmit apiUrl apiKey requestBody] in
     case net of
       [] \<Rightarrow> (Awaiting, calls')
     | NetworkError # net' \<Rightarrow> (Threw, calls')
     | Responded submitRes # net' \<Rightarrow>
         if \<not> ok submitRes then (error_reply ''BFL API error'' submitRes, calls')
         else
          (case json submitRes of
             None \<Rightarrow> (Threw, calls')
           | Some submitData \<Rightarrow>
               if nullish submitData then (Threw, calls')
               else if truthy (jget submitData ''sample'') then
                 (Returned \<lparr>reply_status = 200,
                            reply_body = UrlBody (jget submitData ''sample'')\<rparr>, calls')
               else if \<not> truthy (jget submitData ''polling_url'') then
                 (Returned \<lparr>reply_status = 500,
                            reply_body = ErrorBody (JStr ''No polling URL in response'')\<rparr>, calls')
               else poll_loop (jget submitData ''polling_url'') apiKey net' calls'))"

text \<open>
  The handler (lines 17-40). Its argument is the outcome of \<^verbatim>\<open>request.json()\<close>
  (\<open>None\<close> when it rejects); destructuring \<^verbatim>\<open>null\<close> raises. The script \<open>net\<close> lists
  the outcomes of the successive \<^verbatim>\<open>fetch\<close> calls, the result carries the calls made.
\<close>

definition POST :: "jsval option \<Rightarrow> fetch_outcome list \<Rightarrow> outcome \<times> fetch_call list" where
  "POST request net =
    (case request of
       None \<Rightarrow> (Threw, [])
     | Some b \<Rightarrow>
         if nullish b then (Threw, [])
         else
           let prompt = jget b ''prompt''; apiKey = jget b ''apiKey'';
               image = jget b ''image''; imageUrl = jget b ''imageUrl'';
               variant = jget b ''variant'';
               apiUrl = (if variant = JStr ''4b'' then BFL_API_4B else BFL_API_9B);
               requestBody = \<lparr>rb_prompt = prompt, width = 768, height = 768,
                              prompt_upsampling = False, input_image = None\<rparr>
           in
           if \<not> truthy prompt \<or> \<not> truthy apiKey then
             (Returned \<lparr>reply_status = 400,
                        reply_body = ErrorBody (JStr ''Missing prompt or API key'')\<rparr>, [])
           else if truthy image then
             submit apiUrl apiKey (requestBody\<lparr>input_image := Some image\<rparr>) net []
           else if truthy imageUrl then
             (case net of
                [] \<Rightarrow> (Awaiting, [GetImage imageUrl])
              | x # net' \<Rightarrow>
                  (case urlToBase64 x of
                     None \<Rightarrow> (Threw, [GetImage imageUrl])
                   | Some base64 \<Rightarrow>
                       submit apiUrl apiKey
                         (requestBody\<lparr>input_image := Some (JStr base64)\<rparr>)
                         net' [GetImage imageUrl]))
           else submit apiUrl apiKey requestBody net [])"

text \<open>
  A poll that keeps the loop going: an \<^verbatim>\<open>ok\<close> response whose body has
  \<^verbatim>\<open>status === 'Pending'\<close>.
\<close>

definition pending_poll :: "fetch_outcome \<Rightarrow> bool" where
  "pending_poll x =
    (case x of
       NetworkError \<Rightarrow> False
     | Responded r \<Rightarrow>
         ok r \<and> (case json r of None \<Rightarrow> False | Some d \<Rightarrow> jget d ''status'' = JStr ''Pending''))"

section \<open>The generation session controller (the \<^verbatim>\<open>ImageGenerator\<close> component)\<close>

subsection \<open>State\<close>

text \<open>
  The body the component posts to \<^verbatim>\<open>/api/generate\<close> (lines 58-70 of the component);
  \<open>None\<close> is a key that was not set.
\<close>

record generate_request =
  req_prompt :: string
  req_apiKey :: string
  req_variant :: string
  req_image :: "jsval option"
  req_imageUrl :: "jsval option"

text \<open>
  The text passed to \<^verbatim>\<open>alert\<close>. \<open>RuntimeText\<close> is the message of an error the
  runtime itself raised (a TypeError), whose wording is the engine's.
\<close>

datatype alert_text = Text string | RuntimeText

text \<open>
  The two callbacks of lines 138-142: the outer one asks for another frame, the inner
  one shows the current image.
\<close>

datatype frame_callback = OuterFrame | InnerFrame

text \<open>
  The state the hooks hold (lines 9-24), followed by the part of the browser the
  handlers act on: the interval timers that are running, the last handle
  \<^verbatim>\<open>setInterval\<close> returned (handles are positive integers), the arguments of the calls
  of \<^verbatim>\<open>clearInterval\<close>, the requests posted, the alerts shown, the animation frame
  callbacks waiting, and the key saved in \<^verbatim>\<open>localStorage\<close>. A handler reads the state
  of the latest render: React renders again between two events.
\<close>

record controller =
  apiKey :: string
  prompt :: string
  modelVariant :: string
  isGenerating :: bool
  editMode :: bool
  currentImageUrl :: jsval
  previousImageUrl :: jsval
  showCurrentImage :: bool
  genTime :: string
  isDragOver :: bool
  showLoading :: bool
  loadingComplete :: bool
  referenceImageBase64Ref :: jsval
  dragCounterRef :: int
  timerIntervalRef :: "nat option"
  intervals :: "nat list"
  lastHandle :: nat
  cleared :: "nat list"
  requests :: "generate_request list"
  alerts :: "alert_text list"
  frames :: "frame_callback list"
  savedKey :: "string option"

text \<open>The state after mounting (lines 9-33), given what \<^verbatim>\<open>localStorage\<close> holds.\<close>

definition mount :: "string option \<Rightarrow> controller" where
  "mount saved =
    \<lparr>apiKey = (case saved of None \<Rightarrow> [] | Some k \<Rightarrow> k), prompt = [], modelVariant = ''9b'',
     isGenerating = False, editMode = False, currentImageUrl = JNull,
     previousImageUrl = JNull, showCurrentImage = False, genTime = [], isDragOver = False,
     showLoading = False, loadingComplete = False, referenceImageBase64Ref = JNull,
     dragCounterRef = 0, timerIntervalRef = None, intervals = [], lastHandle = 0,
     cleared = [], requests = [], alerts = [], frames = [], savedKey = saved\<rparr>"

definition handleApiKeyChange :: "string \<Rightarrow> controller \<Rightarrow> controller" where
  "handleApiKeyChange v s = s\<lparr>apiKey := v, savedKey := Some v\<rparr>"

definition setPrompt :: "string \<Rightarrow> controller \<Rightarrow> controller" where
  "setPrompt v s = s\<lparr>prompt := v\<rparr>"

definition setModelVariant :: "string \<Rightarrow> controller \<Rightarrow> controller" where
  "setModelVariant v s = s\<lparr>modelVariant := v\<rparr>"

text \<open>Line 26, and the click on the toggle (line 336).\<close>

definition hasImage :: "controller \<Rightarrow> bool" where
  "hasImage s = (currentImageUrl s \<noteq> JNull)"

definition toggleEditMode :: "controller \<Rightarrow> controller" where
  "toggleEditMode s = (if hasImage s then s\<lparr>editMode := \<not> editMode s\<rparr> else s)"

subsection \<open>The timer\<close>

text \<open>
  \<^verbatim>\<open>timerIntervalRef.current = setInterval(...)\<close> (line 103) and
  \<^verbatim>\<open>if (timerIntervalRef.current) clearInterval(timerIntervalRef.current)\<close>
  (lines 112-114 and 145-147). The ref keeps the handle after the timer is cleared.
\<close>

definition start_timer :: "controller \<Rightarrow> controller" where
  "start_timer s =
    s\<lparr>timerIntervalRef := Some (Suc (lastHandle s)),
      intervals := Suc (lastHandle s) # intervals s,
      lastHandle := Suc (lastHandle s)\<rparr>"

definition clear_timer :: "controller \<Rightarrow> controller" where
  "clear_timer s =
    (case timerIntervalRef s of
       None \<Rightarrow> s
     | Some h \<Rightarrow>
         if h = 0 then s
         else s\<lparr>intervals := removeAll h (intervals s), cleared := cleared s @ [h]\<rparr>)"

text \<open>
  The callback of the interval (lines 103-106) runs only while its timer is running. The
  text it shows is computed from the clock and is an input here.
\<close>

definition timer_tick :: "nat \<Rightarrow> string \<Rightarrow> controller \<Rightarrow> controller" where
  "timer_tick h elapsed s = (if h \<in> set (intervals s) then s\<lparr>genTime := elapsed\<rparr> else s)"

subsection \<open>Generating\<close>

text \<open>
  What \<^verbatim>\<open>generateImage\<close> ends with: the value it returns or the error it throws. An
  \<open>Error\<close> carries its message; a \<open>RuntimeError\<close> is an \<^verbatim>\<open>Error\<close> raised by the
  runtime (a TypeError, or the rejection of \<^verbatim>\<open>fetch\<close>); \<open>NotAnError\<close> is a rejection
  with a value that is not an \<^verbatim>\<open>Error\<close> (the event \<^verbatim>\<open>img.onerror\<close> passes on).
\<close>

datatype thrown = Error string | RuntimeError | NotAnError

datatype generate_result = Return jsval | Throw thrown

text \<open>
  \<^verbatim>\<open>generateImage\<close> up to its first \<^verbatim>\<open>await\<close> (lines 52-76): it has either settled
  already, or has posted the request and waits for \<^verbatim>\<open>fetch\<close>.
\<close>

datatype generate_promise = Settled generate_result | Fetching

definition starts_with :: "string \<Rightarrow> string \<Rightarrow> bool" where
  "starts_with p s = (take (length p) s = p)"

definition generateImage :: "string \<Rightarrow> controller \<Rightarrow> controller \<times> generate_promise" where
  "generateImage promptText s =
    (if apiKey s = [] then
       (s\<lparr>alerts := alerts s @ [Text ''Please enter your BFL API key'']\<rparr>,
        Settled (Return JNull))
     else
       let body = \<lparr>req_prompt = promptText, req_apiKey = apiKey s,
                   req_variant = modelVariant s, req_image = None, req_imageUrl = None\<rparr>
       in
       if editMode s \<and> truthy (currentImageUrl s) then
         (case currentImageUrl s of
            JStr u \<Rightarrow>
              if starts_with ''blob:'' u then
                (s\<lparr>requests := requests s
                     @ [body\<lparr>req_image := Some (referenceImageBase64Ref s)\<rparr>]\<rparr>, Fetching)
              else
                (s\<lparr>requests := requests s
                     @ [body\<lparr>req_imageUrl := Some (currentImageUrl s)\<rparr>]\<rparr>, Fetching)
          | _ \<Rightarrow> (s, Settled (Throw RuntimeError)))
       else (s\<lparr>requests := requests s @ [body]\<rparr>, Fetching))"

text \<open>
  \<^verbatim>\<open>generateImage\<close> after \<^verbatim>\<open>fetch\<close> has settled (lines 72-89). \<^verbatim>\<open>new Error(v)\<close>
  converts \<open>v\<close> to a string for its message, and raises a TypeError itself when that
  fails.
\<close>

definition generateImage_fetched :: "fetch_outcome \<Rightarrow> generate_result" where
  "generateImage_fetched x =
    (case x of
       NetworkError \<Rightarrow> Throw RuntimeError
     | Responded response \<Rightarrow>
         (case json response of
            None \<Rightarrow> Throw (Error (''Request failed ('' @ show_nat (status response) @ '')''))
          | Some data \<Rightarrow>
              if \<not> ok response then
                if nullish data then Throw RuntimeError
                else
                 (case to_string
                    (js_or (jget data ''error'')
                      (JStr (''Request failed ('' @ show_nat (status response) @ '')''))) of
                    None \<Rightarrow> Throw RuntimeError
                  | Some message \<Rightarrow> Throw (Error message))
              else if nullish data then Throw RuntimeError
              else Return (jget data ''url'')))"

text \<open>
  A generation that is suspended: at \<^verbatim>\<open>await generateImage(...)\<close> (line 109) or at the
  preload of the image (line 121). It holds what the closure of \<^verbatim>\<open>handleGenerate\<close>
  captured and still reads: the \<^verbatim>\<open>currentImageUrl\<close> of the render that created it.
\<close>

datatype suspended =
    AwaitGenerate jsval generate_promise
  | AwaitPreload jsval jsval

text \<open>Lines 92-109: \<^verbatim>\<open>handleGenerate\<close> up to its first \<^verbatim>\<open>await\<close>.\<close>

definition handleGenerate :: "controller \<Rightarrow> controller \<times> suspended option" where
  "handleGenerate s =
    (let trimmedPrompt = trim (prompt s) in
     if trimmedPrompt = [] \<or> isGenerating s then (s, None)
     else
       let s1 = s\<lparr>isGenerating := True, showLoading := True, loadingComplete := False,
                   genTime := ''0.0s''\<rparr>;
           s2 = start_timer s1;
           (s3, promise) = generateImage trimmedPrompt s2
       in (s3, Some (AwaitGenerate (currentImageUrl s) promise)))"

text \<open>The \<^verbatim>\<open>catch\<close> block (lines 144-152); \<^verbatim>\<open>console.error\<close> is not modelled.\<close>

definition catch_block :: "thrown \<Rightarrow> controller \<Rightarrow> controller" where
  "catch_block e s =
    (let s1 = clear_timer s in
     s1\<lparr>genTime := [],
        alerts := alerts s1 @ [case e of Error m \<Rightarrow> Text m
                               | RuntimeError \<Rightarrow> RuntimeText
                               | NotAnError \<Rightarrow> Text ''Generation failed''],
        showLoading := False, loadingComplete := False\<rparr>)"

text \<open>
  Lines 109-120 and 144-155: \<^verbatim>\<open>handleGenerate\<close> from the moment \<^verbatim>\<open>generateImage\<close> has
  settled up to the preload, or to its end. \<open>elapsed\<close> is the text
  \<^verbatim>\<open>`${elapsed}s`\<close> computed from the clock at that moment.
\<close>

definition handleGenerate_settled ::
    "jsval \<Rightarrow> generate_result \<Rightarrow> string \<Rightarrow> controller \<Rightarrow> controller \<times> suspended option" where
  "handleGenerate_settled captured res elapsed s =
    (case res of
       Return imageUrl \<Rightarrow>
         let s1 = clear_timer s;
             s2 = s1\<lparr>genTime := elapsed, loadingComplete := True\<rparr>
         in if truthy imageUrl then (s2, Some (AwaitPreload captured imageUrl))
            else (s2\<lparr>isGenerating := False\<rparr>, None)
     | Throw e \<Rightarrow> ((catch_block e s)\<lparr>isGenerating := False\<rparr>, None))"

text \<open>
  Lines 121-143 and 144-155: \<^verbatim>\<open>handleGenerate\<close> from the moment the image has loaded, or
  has failed to load, to its end. The promise of the preload is rejected by
  \<^verbatim>\<open>img.onerror\<close>, with an event, which is not an \<^verbatim>\<open>Error\<close>; or, when the URL cannot
  be converted to a string, by the TypeError the assignment on line 125 raises: such an
  image never loads.
\<close>

definition handleGenerate_preloaded :: "jsval \<Rightarrow> jsval \<Rightarrow> bool \<Rightarrow> controller \<Rightarrow> controller" where
  "handleGenerate_preloaded captured imageUrl loaded s =
    (if loaded then
       let s1 = (if truthy captured
                 then s\<lparr>previousImageUrl := captured, showCurrentImage := False\<rparr> else s);
           s2 = s1\<lparr>currentImageUrl := imageUrl, showLoading := False,
                   loadingComplete := False, frames := frames s1 @ [OuterFrame]\<rparr>
       in s2\<lparr>isGenerating := False\<rparr>
     else (catch_block (if to_string imageUrl = None then RuntimeError else NotAnError) s)
            \<lparr>isGenerating := False\<rparr>)"

text \<open>
  What \<^verbatim>\<open>generateImage\<close> settles with, given the outcome of the \<^verbatim>\<open>fetch\<close> it made;
  when it had settled without a \<^verbatim>\<open>fetch\<close>, no outcome is read.
\<close>

fun generate_outcome :: "generate_promise \<Rightarrow> fetch_outcome \<Rightarrow> generate_result" where
  "generate_outcome (Settled res) x = res"
| "generate_outcome Fetching x = generateImage_fetched x"

text \<open>
  An animation frame (lines 138-142 and 205-209) runs the callbacks that wait: an outer
  one asks for the next frame, an inner one shows the current image.
\<close>

definition animation_frame :: "controller \<Rightarrow> controller" where
  "animation_frame s =
    s\<lparr>showCurrentImage := (InnerFrame \<in> set (frames s) \<or> showCurrentImage s),
      frames := map (\<lambda>_. InnerFrame) (filter (\<lambda>c. c = OuterFrame) (frames s))\<rparr>"

subsection \<open>Drag and drop\<close>

text \<open>
  Lines 165-184. The counter is a JavaScript number, incremented and decremented without
  a bound below; it is an \<open>int\<close> here.
\<close>

definition handleDragEnter :: "controller \<Rightarrow> controller" where
  "handleDragEnter s = s\<lparr>dragCounterRef := dragCounterRef s + 1, isDragOver := True\<rparr>"

definition handleDragOver :: "controller \<Rightarrow> controller" where
  "handleDragOver s = s"

definition handleDragLeave :: "controller \<Rightarrow> controller" where
  "handleDragLeave s =
    (let s1 = s\<lparr>dragCounterRef := dragCounterRef s - 1\<rparr> in
     if dragCounterRef s1 = 0 then s1\<lparr>isDragOver := False\<rparr> else s1)"

text \<open>
  Lines 186-193: \<^verbatim>\<open>handleDrop\<close> up to \<^verbatim>\<open>await fileToBase64(file)\<close>. The argument is the
  MIME type of \<^verbatim>\<open>e.dataTransfer.files[0]\<close>, \<open>None\<close> when no file was dropped. The
  result tells whether the file is being read, and with which \<^verbatim>\<open>currentImageUrl\<close> the
  closure goes on.
\<close>

definition handleDrop :: "string option \<Rightarrow> controller \<Rightarrow> controller \<times> jsval option" where
  "handleDrop file s =
    (let s1 = s\<lparr>dragCounterRef := 0, isDragOver := False\<rparr> in
     case file of
       None \<Rightarrow> (s1, None)
     | Some type \<Rightarrow>
         if starts_with ''image/'' type then (s1, Some (currentImageUrl s)) else (s1, None))"

text \<open>
  \<^verbatim>\<open>fileToBase64\<close> (lines 40-50), given what the reader ends with: its result, a data
  URL, of which the part after the first comma is taken (\<^verbatim>\<open>split(',')[1]\<close>), or an
  error (\<open>None\<close>), which rejects the promise.
\<close>

fun split_on :: "char \<Rightarrow> string \<Rightarrow> string list" where
  "split_on c [] = [[]]"
| "split_on c (x # xs) =
     (if x = c then [] # split_on c xs
      else (case split_on c xs of [] \<Rightarrow> [[x]] | w # ws \<Rightarrow> (x # w) # ws))"

definition fileToBase64 :: "string option \<Rightarrow> jsval option" where
  "fileToBase64 result =
    (case result of
       None \<Rightarrow> None
     | Some dataUrl \<Rightarrow>
         Some (case split_on CHR '','' dataUrl of _ # base64 # _ \<Rightarrow> JStr base64
               | _ \<Rightarrow> JUndefined))"

text \<open>
  Lines 194-209: \<^verbatim>\<open>handleDrop\<close> once the reader has ended. \<open>result\<close> is what it
  ended with (when it failed, the rejection ends the handler), \<open>url\<close> the object URL
  the browser creates for the file.
\<close>

definition handleDrop_read :: "jsval \<Rightarrow> string option \<Rightarrow> string \<Rightarrow> controller \<Rightarrow> controller" where
  "handleDrop_read captured result url s =
    (case fileToBase64 result of
       None \<Rightarrow> s
     | Some base64 \<Rightarrow>
         let s1 = s\<lparr>referenceImageBase64Ref := base64\<rparr>;
             s2 = (if truthy captured
                   then s1\<lparr>previousImageUrl := captured, showCurrentImage := False\<rparr> else s1)
         in s2\<lparr>currentImageUrl := JStr url, editMode := True,
                frames := frames s2 @ [OuterFrame]\<rparr>)"

subsection \<open>Sessions\<close>

text \<open>
  A session is the state together with the handlers that are suspended at an
  \<^verbatim>\<open>await\<close>: generations, and drops whose file is being read (each with the
  \<^verbatim>\<open>currentImageUrl\<close> its closure captured). An event runs one handler, or resumes one
  suspended handler, to its next \<^verbatim>\<open>await\<close> or to its end: JavaScript runs them one at a
  time. A resumption names the suspended handler by its position, and does nothing when
  there is none of that kind at that position.
\<close>

record session =
  state :: controller
  generations :: "suspended list"
  reads :: "jsval list"

datatype event =
    Generate
  | Settle nat fetch_outcome string
  | Preloaded nat bool
  | Tick nat string
  | Frame
  | DragEnter
  | DragOver
  | DragLeave
  | Drop "string option"
  | FileRead nat "string option" string
  | KeyChanged string
  | PromptChanged string
  | VariantChanged string
  | EditToggled

definition remove_nth :: "nat \<Rightarrow> 'a list \<Rightarrow> 'a list" where
  "remove_nth i xs = take i xs @ drop (Suc i) xs"

fun step :: "event \<Rightarrow> session \<Rightarrow> session" where
  "step Generate c =
     (case handleGenerate (state c) of
        (s, None) \<Rightarrow> c\<lparr>state := s\<rparr>
      | (s, Some k) \<Rightarrow> c\<lparr>state := s, generations := generations c @ [k]\<rparr>)"
| "step (Settle i x elapsed) c =
     (if i < length (generations c) then
        (case generations c ! i of
           AwaitGenerate captured promise \<Rightarrow>
             (case handleGenerate_settled captured (generate_outcome promise x) elapsed (state c) of
                (s, None) \<Rightarrow> c\<lparr>state := s, generations := remove_nth i (generations c)\<rparr>
              | (s, Some k) \<Rightarrow> c\<lparr>state := s, generations := (generations c)[i := k]\<rparr>)
         | AwaitPreload captured imageUrl \<Rightarrow> c)
      else c)"
| "step (Preloaded i loaded) c =
     (if i < length (generations c) then
        (case generations c ! i of
           AwaitGenerate captured promise \<Rightarrow> c
         | AwaitPreload captured imageUrl \<Rightarrow>
             c\<lparr>state := handleGenerate_preloaded captured imageUrl loaded (state c),
               generations := remove_nth i (generations c)\<rparr>)
      else c)"
| "step (Tick h elapsed) c = c\<lparr>state := timer_tick h elapsed (state c)\<rparr>"
| "step Frame c = c\<lparr>state := animation_frame (state c)\<rparr>"
| "step DragEnter c = c\<lparr>state := handleDragEnter (state c)\<rparr>"
| "step DragOver c = c\<lparr>state := handleDragOver (state c)\<rparr>"
| "step DragLeave c = c\<lparr>state := handleDragLeave (state c)\<rparr>"
| "step (Drop file) c =
     (case handleDrop file (state c) of
        (s, None) \<Rightarrow> c\<lparr>state := s\<rparr>
      | (s, Some captured) \<Rightarrow> c\<lparr>state := s, reads := reads c @ [captured]\<rparr>)"
| "step (FileRead i dataUrl url) c =
     (if i < length (reads c) then
        c\<lparr>state := handleDrop_read (reads c ! i) dataUrl url (state c),
          reads := remove_nth i (reads c)\<rparr>
      else c)"
| "step (KeyChanged v) c = c\<lparr>state := handleApiKeyChange v (state c)\<rparr>"
| "step (PromptChanged v) c = c\<lparr>state := setPrompt v (state c)\<rparr>"
| "step (VariantChanged v) c = c\<lparr>state := setModelVariant v (state c)\<rparr>"
| "step EditToggled c = c\<lparr>state := toggleEditMode (state c)\<rparr>"

definition run :: "event list \<Rightarrow> session \<Rightarrow> session" where
  "run es c = foldl (\<lambda>c e. step e c) c es"

text \<open>The session of a component that has just been mounted.\<close>

definition mounted :: "string option \<Rightarrow> session" where
  "mounted saved = \<lparr>state = mount saved, generations = [], reads = []\<rparr>"

text \<open>An event that resumes a suspended generation.\<close>

fun resolves :: "event \<Rightarrow> bool" where
  "resolves (Settle i x elapsed) = True"
| "resolves (Preloaded i loaded) = True"
| "resolves e = False"

text \<open>
  A sequence of events in which every drag-leave is matched by a drag-enter that came
  before it and after the last drop: starting from depth \<open>d\<close>, the depth never goes
  below zero.
\<close>

fun nested :: "nat \<Rightarrow> event list \<Rightarrow> bool" where
  "nested d [] = True"
| "nested d (DragEnter # es) = nested (Suc d) es"
| "nested d (DragLeave # es) = (0 < d \<and> nested (d - 1) es)"
| "nested d (Drop file # es) = nested 0 es"
| "nested d (e # es) = nested d es"

text \<open>
  The invariant of a session. At most one generation is suspended, and
  \<^verbatim>\<open>isGenerating\<close> is set exactly while there is one. The timer of the generation runs,
  under the last handle handed out, exactly while \<^verbatim>\<open>generateImage\<close> has not settled;
  once it has, \<^verbatim>\<open>clearInterval\<close> has been called once for that handle. No handle that
  was cleared is newer than the last one handed out.
\<close>

fun phase_ok :: "suspended list \<Rightarrow> controller \<Rightarrow> bool" where
  "phase_ok [] s = (\<not> isGenerating s \<and> intervals s = [])"
| "phase_ok [AwaitGenerate captured promise] s =
     (isGenerating s \<and> intervals s = [lastHandle s]
      \<and> timerIntervalRef s = Some (lastHandle s) \<and> 0 < lastHandle s
      \<and> count_list (cleared s) (lastHandle s) = 0)"
| "phase_ok [AwaitPreload captured imageUrl] s =
     (isGenerating s \<and> intervals s = []
      \<and> timerIntervalRef s = Some (lastHandle s) \<and> 0 < lastHandle s
      \<and> count_list (cleared s) (lastHandle s) = 1)"
| "phase_ok (k # k' # ks) s = False"

definition invariant :: "session \<Rightarrow> bool" where
  "invariant c =
    (phase_ok (generations c) (state c)
     \<and> list_all (\<lambda>h. h \<le> lastHandle (state c)) (cleared (state c)))"

section \<open>Properties of the proxy\<close>

text \<open>
  A request that passes validation reaches the provider through \<open>submit\<close>, after the
  fetch of the reference image when it names one by URL only. The properties of
  \<open>submit\<close> and \<open>poll_loop\<close> below hold for all their arguments, and so for every
  such run of the handler.
\<close>

lemma POST_valid:
  assumes "\<not> nullish b" and "truthy (jget b ''prompt'')" and "truthy (jget b ''apiKey'')"
  shows "POST (Some b) net =
    (let apiUrl = (if jget b ''variant'' = JStr ''4b'' then BFL_API_4B else BFL_API_9B);
         requestBody = \<lparr>rb_prompt = jget b ''prompt'', width = 768, height = 768,
                        prompt_upsampling = False, input_image = None\<rparr>
     in
     if truthy (jget b ''image'') then
       submit apiUrl (jget b ''apiKey'')
         (requestBody\<lparr>input_image := Some (jget b ''image'')\<rparr>) net []
     else if truthy (jget b ''imageUrl'') then
       (case net of
          [] \<Rightarrow> (Awaiting, [GetImage (jget b ''imageUrl'')])
        | x # net' \<Rightarrow>
            (case urlToBase64 x of
               None \<Rightarrow> (Threw, [GetImage (jget b ''imageUrl'')])
             | Some base64 \<Rightarrow>
                 submit apiUrl (jget b ''apiKey'')
                   (requestBody\<lparr>input_image := Some (JStr base64)\<rparr>)
                   net' [GetImage (jget b ''imageUrl'')]))
     else submit apiUrl (jget b ''apiKey'') requestBody net [])"
  using assms by (simp add: POST_def Let_def)

subsection \<open>Polling\<close>

lemma poll_loop_pending_step:
  assumes "pending_poll x"
  shows "poll_loop u k (x # net) calls = poll_loop u k net (calls @ [GetPoll u k])"
proof -
  from assms obtain r d where x: "x = Responded r" and r: "ok r" "json r = Some d"
    and d: "jget d ''status'' = JStr ''Pending''"
    by (auto simp: pending_poll_def split: fetch_outcome.splits option.splits)
  from d have "\<not> nullish d" by (cases d) auto
  with x r d show ?thesis by simp
qed

lemma poll_loop_skips_pending:
  "list_all pending_poll ps \<Longrightarrow>
     poll_loop u k (ps @ net) calls = poll_loop u k net (calls @ replicate (length ps) (GetPoll u k))"
proof (induction ps arbitrary: calls)
  case Nil
  then show ?case by simp
next
  case (Cons p ps)
  then show ?case
    by (simp add: poll_loop_pending_step replicate_app_Cons_same)
qed

text \<open>
  Claim C1, as amended. Whatever polls follow, the polling loop ends at the first poll
  that is not pending. Let the polls before it be \<^verbatim>\<open>ok\<close> responses with status
  \<^verbatim>\<open>'Pending'\<close>, and let it be an \<^verbatim>\<open>ok\<close> response whose body parses as JSON, is not
  \<^verbatim>\<open>null\<close>, and has a status other than \<^verbatim>\<open>'Pending'\<close>. On the pending polls alone the loop has not returned: it
  is waiting for the next poll. With the further poll it returns after exactly that many
  polls: with status \<^verbatim>\<open>'Ready'\<close> and a truthy \<^verbatim>\<open>result.sample\<close> the reply is a success
  (status 200, url = the sample); in every other case, \<^verbatim>\<open>'Ready'\<close> without a sample
  included, the reply is a failure (status 500) whose message is the first truthy one of
  the body's \<^verbatim>\<open>error\<close>, \<^verbatim>\<open>message\<close> and \<^verbatim>\<open>detail\<close>, else, when the status converts to
  a string \<open>s\<close>, the text \<^verbatim>\<open>Generation failed: \<close> followed by \<open>s\<close>.
\<close>

theorem polling_ends_at_first_non_pending:
  assumes "list_all pending_poll ps"
    and "ok r" and "json r = Some d" and "\<not> nullish d"
    and "jget d ''status'' \<noteq> JStr ''Pending''"
    and "truthy (jget d ''error'') \<or> truthy (jget d ''message'') \<or> truthy (jget d ''detail'')
      \<or> to_string (jget d ''status'') = Some s"
  shows "poll_loop u k ps calls = (Awaiting, calls @ replicate (Suc (length ps)) (GetPoll u k))
    \<and> poll_loop u k (ps @ Responded r # rest) calls =
      (Returned
        (if jget d ''status'' = JStr ''Ready'' \<and> truthy (opt_prop (jget d ''result'') ''sample'')
         then \<lparr>reply_status = 200, reply_body = UrlBody (jget (jget d ''result'') ''sample'')\<rparr>
         else \<lparr>reply_status = 500, reply_body = ErrorBody
                (if truthy (jget d ''error'') then jget d ''error''
                 else if truthy (jget d ''message'') then jget d ''message''
                 else if truthy (jget d ''detail'') then jget d ''detail''
                 else JStr (''Generation failed: '' @ s))\<rparr>),
       calls @ replicate (Suc (length ps)) (GetPoll u k))"
proof
  from assms(1) have "poll_loop u k (ps @ []) calls
      = poll_loop u k [] (calls @ replicate (length ps) (GetPoll u k))"
    by (rule poll_loop_skips_pending)
  then show "poll_loop u k ps calls = (Awaiting, calls @ replicate (Suc (length ps)) (GetPoll u k))"
    by (simp add: replicate_append_same)
next
  from assms(1) have "poll_loop u k (ps @ Responded r # rest) calls
      = poll_loop u k (Responded r # rest) (calls @ replicate (length ps) (GetPoll u k))"
    by (rule poll_loop_skips_pending)
  with assms(2-6) show "poll_loop u k (ps @ Responded r # rest) calls =
      (Returned
        (if jget d ''status'' = JStr ''Ready'' \<and> truthy (opt_prop (jget d ''result'') ''sample'')
         then \<lparr>reply_status = 200, reply_body = UrlBody (jget (jget d ''result'') ''sample'')\<rparr>
         else \<lparr>reply_status = 500, reply_body = ErrorBody
                (if truthy (jget d ''error'') then jget d ''error''
                 else if truthy (jget d ''message'') then jget d ''message''
                 else if truthy (jget d ''detail'') then jget d ''detail''
                 else JStr (''Generation failed: '' @ s))\<rparr>),
       calls @ replicate (Suc (length ps)) (GetPoll u k))"
    by (auto simp: js_or_raising_def replicate_append_same Let_def)
qed

theorem polling_ends_at_first_non_pending_witness:
  "poll_loop (JStr ''https://x/poll/1'') (JStr ''test-key'')
     [Responded \<lparr>ok = True, status = 200, json = Some (JObj [(''status'', JStr ''Pending'')]),
        text_body = None, arrayBuffer = None\<rparr>,
      Responded \<lparr>ok = True, status = 200, json = Some (JObj [(''status'', JStr ''Pending'')]),
        text_body = None, arrayBuffer = None\<rparr>,
      Responded \<lparr>ok = True, status = 200,
        json = Some (JObj [(''status'', JStr ''Ready''),
                           (''result'', JObj [(''sample'', JStr ''https://x/final.png'')])]),
        text_body = None, arrayBuffer = None\<rparr>] []
   = (Returned \<lparr>reply_status = 200, reply_body = UrlBody (JStr ''https://x/final.png'')\<rparr>,
      [GetPoll (JStr ''https://x/poll/1'') (JStr ''test-key''),
       GetPoll (JStr ''https://x/poll/1'') (JStr ''test-key''),
       GetPoll (JStr ''https://x/poll/1'') (JStr ''test-key'')])
   \<and> poll_loop (JStr ''https://x/poll/1'') (JStr ''test-key'')
     [Responded \<lparr>ok = True, status = 200, json = Some (JObj [(''status'', JStr ''Pending'')]),
        text_body = None, arrayBuffer = None\<rparr>,
      Responded \<lparr>ok = True, status = 200,
        json = Some (JObj [(''status'', JStr ''ContentModerated'')]),
        text_body = None, arrayBuffer = None\<rparr>] []
   = (Returned \<lparr>reply_status = 500,
        reply_body = ErrorBody (JStr ''Generation failed: ContentModerated'')\<rparr>,
      [GetPoll (JStr ''https://x/poll/1'') (JStr ''test-key''),
       GetPoll (JStr ''https://x/poll/1'') (JStr ''test-key'')])"
proof -
  let ?p = "Responded \<lparr>ok = True, status = 200,
      json = Some (JObj [(''status'', JStr ''Pending'')]), text_body = None, arrayBuffer = None\<rparr>"
  let ?ready = "JObj [(''status'', JStr ''Ready''),
      (''result'', JObj [(''sample'', JStr ''https://x/final.png'')])]"
  let ?moderated = "JObj [(''status'', JStr ''ContentModerated'')]"
  have two: "list_all pending_poll [?p, ?p]" and one: "list_all pending_poll [?p]"
    by (simp_all add: pending_poll_def)
  have "\<not> nullish ?ready" "jget ?ready ''status'' \<noteq> JStr ''Pending''"
    "to_string (jget ?ready ''status'') = Some ''Ready''"
    "\<not> nullish ?moderated" "jget ?moderated ''status'' \<noteq> JStr ''Pending''"
    "to_string (jget ?moderated ''status'') = Some ''ContentModerated''"
    by simp_all
  with polling_ends_at_first_non_pending
         [OF two, where r = "\<lparr>ok = True, status = 200, json = Some ?ready,
             text_body = None, arrayBuffer = None\<rparr>" and d = ?ready and s = "''Ready''"
            and u = "JStr ''https://x/poll/1''" and k = "JStr ''test-key''"
            and rest = "[]" and calls = "[]"]
       polling_ends_at_first_non_pending
         [OF one, where r = "\<lparr>ok = True, status = 200, json = Some ?moderated,
             text_body = None, arrayBuffer = None\<rparr>" and d = ?moderated
            and s = "''ContentModerated''"
            and u = "JStr ''https://x/poll/1''" and k = "JStr ''test-key''"
            and rest = "[]" and calls = "[]"]
  show ?thesis by (simp add: opt_prop_def)
qed

text \<open>
  Counterexample to claim C1 as stated. A poll answered with the status
  \<^verbatim>\<open>ContentModerated\<close> and no explicit message ends the run with the message
  \<^verbatim>\<open>Generation failed: ContentModerated\<close>, which differs from
  \<^verbatim>\<open>generation failed: ContentModerated\<close>. And a poll answered with
  \<^verbatim>\<open>{"status": {"toString": 1}}\<close>, whose status is not \<^verbatim>\<open>'Pending'\<close>, ends the
  run with no failure reply at all: the template literal of line 120 raises and the
  exception escapes the handler. So does the exception of line 108 when the body of the
  poll is \<^verbatim>\<open>null\<close>, and that of line 106 when it is not JSON.
\<close>

theorem unprintable_status_raises:
  "POST (Some (JObj [(''prompt'', JStr ''a cat''), (''apiKey'', JStr ''test-key'')]))
     [Responded \<lparr>ok = True, status = 200,
        json = Some (JObj [(''polling_url'', JStr ''https://x/poll/1'')]),
        text_body = None, arrayBuffer = None\<rparr>,
      Responded \<lparr>ok = True, status = 200,
        json = Some (JObj [(''status'', JStr ''ContentModerated'')]),
        text_body = None, arrayBuffer = None\<rparr>]
   = (Returned \<lparr>reply_status = 500,
        reply_body = ErrorBody (JStr ''Generation failed: ContentModerated'')\<rparr>,
      [PostSubmit ''https://api.bfl.ai/v1/flux-2-klein-9b'' (JStr ''test-key'')
         \<lparr>rb_prompt = JStr ''a cat'', width = 768, height = 768, prompt_upsampling = False,
            input_image = None\<rparr>,
       GetPoll (JStr ''https://x/poll/1'') (JStr ''test-key'')])
   \<and> ''Generation failed: ContentModerated'' \<noteq> ''generation failed: ContentModerated''
   \<and> POST (Some (JObj [(''prompt'', JStr ''a cat''), (''apiKey'', JStr ''test-key'')]))
     [Responded \<lparr>ok = True, status = 200,
        json = Some (JObj [(''polling_url'', JStr ''https://x/poll/1'')]),
        text_body = None, arrayBuffer = None\<rparr>,
      Responded \<lparr>ok = True, status = 200,
        json = Some (JObj [(''status'', JObj [(''toString'', JNum ''1'')])]),
        text_body = None, arrayBuffer = None\<rparr>]
   = (Threw,
      [PostSubmit ''https://api.bfl.ai/v1/flux-2-klein-9b'' (JStr ''test-key'')
         \<lparr>rb_prompt = JStr ''a cat'', width = 768, height = 768, prompt_upsampling = False,
            input_image = None\<rparr>,
       GetPoll (JStr ''https://x/poll/1'') (JStr ''test-key'')])
   \<and> poll_loop (JStr ''https://x/poll/1'') (JStr ''test-key'')
     [Responded \<lparr>ok = True, status = 200, json = Some JNull,
        text_body = None, arrayBuffer = None\<rparr>] []
   = (Threw, [GetPoll (JStr ''https://x/poll/1'') (JStr ''test-key'')])
   \<and> poll_loop (JStr ''https://x/poll/1'') (JStr ''test-key'')
     [Responded \<lparr>ok = True, status = 200, json = None,
        text_body = None, arrayBuffer = None\<rparr>] []
   = (Threw, [GetPoll (JStr ''https://x/poll/1'') (JStr ''test-key'')])"
  by (simp add: POST_def submit_def BFL_API_9B_def opt_prop_def js_or_raising_def Let_def)

subsection \<open>Validation\<close>

text \<open>
  Claim C2, as amended. For every request whose body is a JSON value other than \<^verbatim>\<open>null\<close>
  and in which the prompt or the credential is missing or falsy (in particular the empty
  string), the proxy replies with status 400 and the message
  \<^verbatim>\<open>Missing prompt or API key\<close>, and has issued no network call, whatever the network
  would have answered. The prompt is tested as it is: the route does not trim it.
\<close>

theorem missing_prompt_or_key_rejected:
  assumes "\<not> nullish b"
    and "\<not> truthy (jget b ''prompt'') \<or> \<not> truthy (jget b ''apiKey'')"
  shows "POST (Some b) net =
    (Returned \<lparr>reply_status = 400,
               reply_body = ErrorBody (JStr ''Missing prompt or API key'')\<rparr>, [])"
  using assms by (auto simp: POST_def Let_def)

theorem missing_prompt_or_key_rejected_witness:
  "POST (Some (JObj [(''apiKey'', JStr ''test-key'')])) [] =
     (Returned \<lparr>reply_status = 400,
                reply_body = ErrorBody (JStr ''Missing prompt or API key'')\<rparr>, [])
   \<and> POST (Some (JObj [(''prompt'', JStr ''''), (''apiKey'', JStr ''test-key'')])) [NetworkError] =
     (Returned \<lparr>reply_status = 400,
                reply_body = ErrorBody (JStr ''Missing prompt or API key'')\<rparr>, [])
   \<and> POST (Some (JObj [(''prompt'', JStr ''a cat'')])) [] =
     (Returned \<lparr>reply_status = 400,
                reply_body = ErrorBody (JStr ''Missing prompt or API key'')\<rparr>, [])"
  using missing_prompt_or_key_rejected [of "JObj [(''apiKey'', JStr ''test-key'')]" "[]"]
    missing_prompt_or_key_rejected
      [of "JObj [(''prompt'', JStr ''''), (''apiKey'', JStr ''test-key'')]" "[NetworkError]"]
    missing_prompt_or_key_rejected [of "JObj [(''prompt'', JStr ''a cat'')]" "[]"]
  by simp

text \<open>
  Counterexample to claim C2 as stated: a prompt of three spaces is empty after trimming,
  yet the route submits it to the provider and returns the provider's result.
\<close>

theorem blank_prompt_is_submitted:
  "trim ''   '' = [] \<and>
   POST (Some (JObj [(''prompt'', JStr ''   ''), (''apiKey'', JStr ''test-key'')]))
     [Responded \<lparr>ok = True, status = 200,
        json = Some (JObj [(''sample'', JStr ''https://x/img.png'')]),
        text_body = None, arrayBuffer = None\<rparr>]
   = (Returned \<lparr>reply_status = 200, reply_body = UrlBody (JStr ''https://x/img.png'')\<rparr>,
      [PostSubmit ''https://api.bfl.ai/v1/flux-2-klein-9b'' (JStr ''test-key'')
         \<lparr>rb_prompt = JStr ''   '', width = 768, height = 768, prompt_upsampling = False,
            input_image = None\<rparr>])"
  by (simp add: trim_def is_space_def POST_def submit_def BFL_API_9B_def)

subsection \<open>Submission without a polling URL\<close>

text \<open>
  Claim C4, as amended. For every \<^verbatim>\<open>ok\<close> submission response whose body is not
  \<^verbatim>\<open>null\<close> and has neither a truthy \<^verbatim>\<open>sample\<close> nor a truthy \<^verbatim>\<open>polling_url\<close>, the
  proxy replies with status 500 and the message \<^verbatim>\<open>No polling URL in response\<close>; the
  submission is the last call it makes, so no poll takes place, whatever the network
  would answer next.
\<close>

theorem no_polling_url_is_protocol_error:
  assumes "ok r" and "json r = Some d" and "\<not> nullish d"
    and "\<not> truthy (jget d ''sample'')" and "\<not> truthy (jget d ''polling_url'')"
  shows "submit apiUrl key body (Responded r # rest) calls =
    (Returned \<lparr>reply_status = 500,
               reply_body = ErrorBody (JStr ''No polling URL in response'')\<rparr>,
     calls @ [PostSubmit apiUrl key body])"
  using assms by (simp add: submit_def)

theorem no_polling_url_is_protocol_error_witness:
  "POST (Some (JObj [(''prompt'', JStr ''a cat''), (''apiKey'', JStr ''test-key'')]))
     [Responded \<lparr>ok = True, status = 200, json = Some (JObj []),
        text_body = None, arrayBuffer = None\<rparr>,
      Responded \<lparr>ok = True, status = 200,
        json = Some (JObj [(''status'', JStr ''Ready''),
                           (''result'', JObj [(''sample'', JStr ''https://x/final.png'')])]),
        text_body = None, arrayBuffer = None\<rparr>]
   = (Returned \<lparr>reply_status = 500,
                reply_body = ErrorBody (JStr ''No polling URL in response'')\<rparr>,
      [PostSubmit ''https://api.bfl.ai/v1/flux-2-klein-9b'' (JStr ''test-key'')
         \<lparr>rb_prompt = JStr ''a cat'', width = 768, height = 768, prompt_upsampling = False,
            input_image = None\<rparr>])"
proof -
  let ?r = "\<lparr>ok = True, status = 200, json = Some (JObj []),
      text_body = None, arrayBuffer = None\<rparr>"
  have "ok ?r" "json ?r = Some (JObj [])" "\<not> nullish (JObj [])"
    "\<not> truthy (jget (JObj []) ''sample'')" "\<not> truthy (jget (JObj []) ''polling_url'')"
    by simp_all
  from no_polling_url_is_protocol_error [OF this]
  show ?thesis by (simp add: POST_def BFL_API_9B_def)
qed

text \<open>
  Counterexample to claim C4 as stated: for the submission response \<^verbatim>\<open>{}\<close> the message
  of the reply is \<^verbatim>\<open>No polling URL in response\<close>, which is not the string
  \<^verbatim>\<open>no polling handle in response\<close>.
\<close>

theorem no_polling_url_message_differs:
  "POST (Some (JObj [(''prompt'', JStr ''a cat''), (''apiKey'', JStr ''test-key'')]))
     [Responded \<lparr>ok = True, status = 200, json = Some (JObj []),
        text_body = None, arrayBuffer = None\<rparr>]
   = (Returned \<lparr>reply_status = 500,
                reply_body = ErrorBody (JStr ''No polling URL in response'')\<rparr>,
      [PostSubmit ''https://api.bfl.ai/v1/flux-2-klein-9b'' (JStr ''test-key'')
         \<lparr>rb_prompt = JStr ''a cat'', width = 768, height = 768, prompt_upsampling = False,
            input_image = None\<rparr>])
   \<and> ''No polling URL in response'' \<noteq> ''no polling handle in response''"
  by (simp add: POST_def submit_def BFL_API_9B_def)

subsection \<open>Provider errors\<close>






subsection \<open>The reference image\<close>

lemma poll_loop_Responded_cases:
  "poll_loop u k (Responded r # net) calls = poll_loop u k net (calls @ [GetPoll u k])
   \<or> snd (poll_loop u k (Responded r # net) calls) = calls @ [GetPoll u k]"
  by (simp add: Let_def split: option.splits)

lemma poll_loop_calls:
  "\<exists>n. snd (poll_loop u k net calls) = calls @ replicate n (GetPoll u k)"
proof (induction net arbitrary: calls)
  case Nil
  have "snd (poll_loop u k [] calls) = calls @ replicate 1 (GetPoll u k)"
    by simp
  then show ?case by blast
next
  case (Cons x net)
  have one: "\<exists>n. calls @ [GetPoll u k] = calls @ replicate n (GetPoll u k)"
  proof
    show "calls @ [GetPoll u k] = calls @ replicate 1 (GetPoll u k)" by simp
  qed
  show ?case
  proof (cases x)
    case NetworkError
    with one show ?thesis by simp
  next
    case (Responded r)
    from poll_loop_Responded_cases [of u k r net calls] show ?thesis
    proof
      assume again: "poll_loop u k (Responded r # net) calls
          = poll_loop u k net (calls @ [GetPoll u k])"
      from Cons.IH [of "calls @ [GetPoll u k]"] obtain n where
        "snd (poll_loop u k net (calls @ [GetPoll u k]))
          = (calls @ [GetPoll u k]) @ replicate n (GetPoll u k)" ..
      with again Responded
      have "snd (poll_loop u k (x # net) calls) = calls @ replicate (Suc n) (GetPoll u k)"
        by simp
      then show ?thesis ..
    next
      assume "snd (poll_loop u k (Responded r # net) calls) = calls @ [GetPoll u k]"
      with one Responded show ?thesis by simp
    qed
  qed
qed

lemma submit_cases:
  "(\<exists>u net'. submit apiUrl key body net calls
        = poll_loop u key net' (calls @ [PostSubmit apiUrl key body]))
   \<or> snd (submit apiUrl key body net calls) = calls @ [PostSubmit apiUrl key body]"
  by (auto simp: submit_def Let_def split: list.splits fetch_outcome.splits option.splits)

lemma submit_calls:
  "\<exists>n u. snd (submit apiUrl key body net calls)
     = calls @ PostSubmit apiUrl key body # replicate n (GetPoll u key)"
proof -
  let ?calls' = "calls @ [PostSubmit apiUrl key body]"
  from submit_cases [of apiUrl key body net calls] show ?thesis
  proof
    assume "\<exists>u net'. submit apiUrl key body net calls = poll_loop u key net' ?calls'"
    then obtain u net' where
      "submit apiUrl key body net calls = poll_loop u key net' ?calls'"
      by blast
    with poll_loop_calls [of u key net' ?calls'] show ?thesis by auto
  next
    assume "snd (submit apiUrl key body net calls) = ?calls'"
    then have "snd (submit apiUrl key body net calls)
        = calls @ PostSubmit apiUrl key body # replicate 0 (GetPoll JNull key)"
      by simp
    then show ?thesis by blast
  qed
qed

text \<open>
  Claim C10. For every request that passes validation and carries a truthy \<^verbatim>\<open>image\<close>,
  whatever its \<^verbatim>\<open>imageUrl\<close> is and whatever the network answers: the first call of the
  run is the submission to the provider, with the \<^verbatim>\<open>image\<close> of the request unchanged as
  \<^verbatim>\<open>input_image\<close>; every later call is a poll; and no call fetches a reference image.
  The request is not rejected for carrying both fields.
\<close>

theorem inline_image_takes_precedence:
  assumes "\<not> nullish b" and "truthy (jget b ''prompt'')" and "truthy (jget b ''apiKey'')"
    and "truthy (jget b ''image'')"
  shows "(\<exists>n u. snd (POST (Some b) net) =
      PostSubmit (if jget b ''variant'' = JStr ''4b'' then BFL_API_4B else BFL_API_9B)
        (jget b ''apiKey'')
        \<lparr>rb_prompt = jget b ''prompt'', width = 768, height = 768, prompt_upsampling = False,
           input_image = Some (jget b ''image'')\<rparr>
      # replicate n (GetPoll u (jget b ''apiKey'')))
    \<and> (\<forall>v. GetImage v \<notin> set (snd (POST (Some b) net)))"
proof -
  let ?apiUrl = "if jget b ''variant'' = JStr ''4b'' then BFL_API_4B else BFL_API_9B"
  let ?body = "\<lparr>rb_prompt = jget b ''prompt'', width = 768, height = 768,
      prompt_upsampling = False, input_image = Some (jget b ''image'')\<rparr>"
  from assms have "POST (Some b) net = submit ?apiUrl (jget b ''apiKey'') ?body net []"
    by (simp add: POST_def Let_def)
  with submit_calls [of ?apiUrl "jget b ''apiKey''" ?body net "[]"]
  obtain n u where calls: "snd (POST (Some b) net)
      = PostSubmit ?apiUrl (jget b ''apiKey'') ?body # replicate n (GetPoll u (jget b ''apiKey''))"
    by auto
  then have "\<forall>v. GetImage v \<notin> set (snd (POST (Some b) net))"
    by auto
  with calls show ?thesis by blast
qed

theorem inline_image_takes_precedence_witness:
  "snd (POST (Some (JObj [(''prompt'', JStr ''make it blue''), (''apiKey'', JStr ''test-key''),
                          (''image'', JStr ''aGVsbG8=''),
                          (''imageUrl'', JStr ''https://example.com/source.png'')]))
          [Responded \<lparr>ok = True, status = 200,
             json = Some (JObj [(''polling_url'', JStr ''https://x/poll/1'')]),
             text_body = None, arrayBuffer = None\<rparr>,
           Responded \<lparr>ok = True, status = 200,
             json = Some (JObj [(''status'', JStr ''Ready''),
                                (''result'', JObj [(''sample'', JStr ''https://x/final.png'')])]),
             text_body = None, arrayBuffer = None\<rparr>])
   = [PostSubmit ''https://api.bfl.ai/v1/flux-2-klein-9b'' (JStr ''test-key'')
        \<lparr>rb_prompt = JStr ''make it blue'', width = 768, height = 768,
           prompt_upsampling = False, input_image = Some (JStr ''aGVsbG8='')\<rparr>,
      GetPoll (JStr ''https://x/poll/1'') (JStr ''test-key'')]
   \<and> GetImage (JStr ''https://example.com/source.png'') \<notin>
     set (snd (POST (Some (JObj [(''prompt'', JStr ''make it blue''), (''apiKey'', JStr ''test-key''),
                          (''image'', JStr ''aGVsbG8=''),
                          (''imageUrl'', JStr ''https://example.com/source.png'')]))
          [Responded \<lparr>ok = True, status = 200,
             json = Some (JObj [(''polling_url'', JStr ''https://x/poll/1'')]),
             text_body = None, arrayBuffer = None\<rparr>,
           Responded \<lparr>ok = True, status = 200,
             json = Some (JObj [(''status'', JStr ''Ready''),
                                (''result'', JObj [(''sample'', JStr ''https://x/final.png'')])]),
             text_body = None, arrayBuffer = None\<rparr>]))"
proof -
  let ?b = "JObj [(''prompt'', JStr ''make it blue''), (''apiKey'', JStr ''test-key''),
      (''image'', JStr ''aGVsbG8=''), (''imageUrl'', JStr ''https://example.com/source.png'')]"
  let ?net = "[Responded \<lparr>ok = True, status = 200,
       json = Some (JObj [(''polling_url'', JStr ''https://x/poll/1'')]),
       text_body = None, arrayBuffer = None\<rparr>,
     Responded \<lparr>ok = True, status = 200,
       json = Some (JObj [(''status'', JStr ''Ready''),
                          (''result'', JObj [(''sample'', JStr ''https://x/final.png'')])]),
       text_body = None, arrayBuffer = None\<rparr>]"
  have "\<not> nullish ?b" "truthy (jget ?b ''prompt'')" "truthy (jget ?b ''apiKey'')"
    "truthy (jget ?b ''image'')"
    by simp_all
  from inline_image_takes_precedence [OF this, of ?net]
  have "\<forall>v. GetImage v \<notin> set (snd (POST (Some ?b) ?net))" by blast
  then have "GetImage (JStr ''https://example.com/source.png'') \<notin> set (snd (POST (Some ?b) ?net))"
    by blast
  moreover have "snd (POST (Some ?b) ?net)
   = [PostSubmit ''https://api.bfl.ai/v1/flux-2-klein-9b'' (JStr ''test-key'')
        \<lparr>rb_prompt = JStr ''make it blue'', width = 768, height = 768,
           prompt_upsampling = False, input_image = Some (JStr ''aGVsbG8='')\<rparr>,
      GetPoll (JStr ''https://x/poll/1'') (JStr ''test-key'')]"
    by (simp add: POST_def submit_def BFL_API_9B_def opt_prop_def Let_def)
  ultimately show ?thesis by blast
qed

section \<open>Properties of the controller\<close>

text \<open>The definitions to unfold when a session is run on concrete events.\<close>

lemmas session_eval =
  run_def mounted_def mount_def handleApiKeyChange_def setPrompt_def setModelVariant_def
  toggleEditMode_def hasImage_def handleGenerate_def generateImage_def generateImage_fetched_def
  handleGenerate_settled_def handleGenerate_preloaded_def catch_block_def start_timer_def
  clear_timer_def timer_tick_def animation_frame_def handleDragEnter_def handleDragOver_def
  handleDragLeave_def handleDrop_def handleDrop_read_def fileToBase64_def remove_nth_def starts_with_def
  trim_def is_space_def js_or_def Let_def

subsection \<open>The invariant holds in every session\<close>

lemma count_list_fresh:
  "list_all (\<lambda>h. h \<le> n) xs \<Longrightarrow> count_list xs (Suc n) = 0"
  by (induction xs) auto

lemma list_all_le_Suc:
  "list_all (\<lambda>h. h \<le> n) xs \<Longrightarrow> list_all (\<lambda>h. h \<le> Suc n) xs"
  by (induction xs) auto

lemma invariant_mounted: "invariant (mounted saved)"
  by (simp add: invariant_def mounted_def mount_def)

lemma phase_ok_idle: "phase_ok ks s \<Longrightarrow> \<not> isGenerating s \<Longrightarrow> ks = []"
  by (induction ks s rule: phase_ok.induct) auto

lemma generateImage_keeps:
  "generateImage p s = (s', pr) \<Longrightarrow>
     isGenerating s' = isGenerating s \<and> intervals s' = intervals s
     \<and> timerIntervalRef s' = timerIntervalRef s \<and> lastHandle s' = lastHandle s
     \<and> cleared s' = cleared s \<and> dragCounterRef s' = dragCounterRef s
     \<and> isDragOver s' = isDragOver s \<and> currentImageUrl s' = currentImageUrl s
     \<and> previousImageUrl s' = previousImageUrl s \<and> genTime s' = genTime s"
  by (auto simp: generateImage_def Let_def split: if_splits jsval.splits)

lemma invariant_Generate:
  assumes "invariant c"
  shows "invariant (step Generate c)"
proof (cases "trim (prompt (state c)) = [] \<or> isGenerating (state c)")
  case True
  then have "handleGenerate (state c) = (state c, None)"
    by (simp add: handleGenerate_def)
  with assms show ?thesis by simp
next
  case False
  with assms have idle: "generations c = []"
    by (auto simp: invariant_def dest: phase_ok_idle)
  let ?s1 = "(state c)\<lparr>isGenerating := True, showLoading := True, loadingComplete := False,
      genTime := ''0.0s''\<rparr>"
  obtain s3 pr where g: "generateImage (trim (prompt (state c))) (start_timer ?s1) = (s3, pr)"
    by (cases "generateImage (trim (prompt (state c))) (start_timer ?s1)")
  with False have h: "handleGenerate (state c)
      = (s3, Some (AwaitGenerate (currentImageUrl (state c)) pr))"
    by (simp add: handleGenerate_def Let_def)
  from assms idle have old: "intervals (state c) = []"
    "list_all (\<lambda>h. h \<le> lastHandle (state c)) (cleared (state c))"
    by (simp_all add: invariant_def)
  from generateImage_keeps [OF g] old
  have "phase_ok [AwaitGenerate (currentImageUrl (state c)) pr] s3"
    "list_all (\<lambda>h. h \<le> lastHandle s3) (cleared s3)"
    by (simp_all add: start_timer_def count_list_fresh list_all_le_Suc)
  with h idle show ?thesis by (simp add: invariant_def)
qed

lemma clear_timer_running:
  "timerIntervalRef s = Some h \<Longrightarrow> 0 < h \<Longrightarrow>
     clear_timer s = s\<lparr>intervals := removeAll h (intervals s), cleared := cleared s @ [h]\<rparr>"
  by (simp add: clear_timer_def)

lemma phase_ok_single: "phase_ok (k # ks) s \<Longrightarrow> ks = []"
  by (cases ks) auto

lemma invariant_Settle:
  assumes "invariant c"
  shows "invariant (step (Settle i x elapsed) c)"
proof (cases "generations c")
  case Nil
  with assms show ?thesis by simp
next
  case (Cons k ks)
  with assms have ks: "ks = []"
    by (auto simp: invariant_def dest: phase_ok_single)
  show ?thesis
  proof (cases k)
    case (AwaitPreload captured imageUrl)
    with Cons ks assms show ?thesis by (cases i) simp_all
  next
    case (AwaitGenerate captured promise)
    with Cons ks assms have ph: "isGenerating (state c)"
      "intervals (state c) = [lastHandle (state c)]"
      "timerIntervalRef (state c) = Some (lastHandle (state c))" "0 < lastHandle (state c)"
      "count_list (cleared (state c)) (lastHandle (state c)) = 0"
      and le: "list_all (\<lambda>h. h \<le> lastHandle (state c)) (cleared (state c))"
      by (simp_all add: invariant_def)
    note ct = clear_timer_running [OF ph(3,4)]
    show ?thesis
    proof (cases i)
      case (Suc j)
      with Cons ks assms show ?thesis by simp
    next
      case 0
      show ?thesis
      proof (cases "generate_outcome promise x")
        case (Return imageUrl)
        with 0 Cons ks AwaitGenerate ph le ct show ?thesis
          by (simp add: handleGenerate_settled_def invariant_def remove_nth_def Let_def)
      next
        case (Throw e)
        with 0 Cons ks AwaitGenerate ph le ct show ?thesis
          by (simp add: handleGenerate_settled_def catch_block_def invariant_def
              remove_nth_def Let_def)
      qed
    qed
  qed
qed

lemma invariant_Preloaded:
  assumes "invariant c"
  shows "invariant (step (Preloaded i loaded) c)"
proof (cases "generations c")
  case Nil
  with assms show ?thesis by simp
next
  case (Cons k ks)
  with assms have ks: "ks = []"
    by (auto simp: invariant_def dest: phase_ok_single)
  show ?thesis
  proof (cases k)
    case (AwaitGenerate captured promise)
    with Cons ks assms show ?thesis by (cases i) simp_all
  next
    case (AwaitPreload captured imageUrl)
    with Cons ks assms have ph: "isGenerating (state c)" "intervals (state c) = []"
      "timerIntervalRef (state c) = Some (lastHandle (state c))" "0 < lastHandle (state c)"
      and le: "list_all (\<lambda>h. h \<le> lastHandle (state c)) (cleared (state c))"
      by (simp_all add: invariant_def)
    note ct = clear_timer_running [OF ph(3,4)]
    show ?thesis
    proof (cases i)
      case (Suc j)
      with Cons ks assms show ?thesis by simp
    next
      case 0
      with Cons ks AwaitPreload ph le ct show ?thesis
        by (simp add: handleGenerate_preloaded_def catch_block_def invariant_def
            remove_nth_def Let_def)
    qed
  qed
qed

lemma phase_ok_cong:
  assumes "isGenerating s' = isGenerating s" and "intervals s' = intervals s"
    and "timerIntervalRef s' = timerIntervalRef s" and "lastHandle s' = lastHandle s"
    and "cleared s' = cleared s"
  shows "phase_ok ks s' = phase_ok ks s"
  using assms by (induction ks s rule: phase_ok.induct) auto

lemma invariant_state:
  assumes "invariant c"
    and "isGenerating s' = isGenerating (state c)" and "intervals s' = intervals (state c)"
    and "timerIntervalRef s' = timerIntervalRef (state c)"
    and "lastHandle s' = lastHandle (state c)" and "cleared s' = cleared (state c)"
  shows "invariant (c\<lparr>state := s'\<rparr>)" and "invariant (c\<lparr>state := s', reads := rs\<rparr>)"
  using assms phase_ok_cong [OF assms(2-6), of "generations c"]
  by (simp_all add: invariant_def)

lemma invariant_step:
  assumes "invariant c"
  shows "invariant (step e c)"
proof (cases e)
  case Generate
  with assms show ?thesis by (simp only: invariant_Generate)
next
  case (Settle i x elapsed)
  with assms show ?thesis by (simp only: invariant_Settle)
next
  case (Preloaded i loaded)
  with assms show ?thesis by (simp only: invariant_Preloaded)
next
  case (Tick h elapsed)
  with assms show ?thesis by (simp add: invariant_state timer_tick_def)
next
  case Frame
  with assms show ?thesis by (simp add: invariant_state animation_frame_def)
next
  case DragEnter
  with assms show ?thesis by (simp add: invariant_state handleDragEnter_def)
next
  case DragOver
  with assms show ?thesis by (simp add: invariant_state handleDragOver_def)
next
  case DragLeave
  with assms show ?thesis by (simp add: invariant_state handleDragLeave_def Let_def)
next
  case (Drop f)
  with assms show ?thesis
    by (simp add: invariant_state handleDrop_def Let_def split: option.splits)
next
  case (FileRead i dataUrl url)
  with assms show ?thesis
    by (simp add: invariant_state handleDrop_read_def Let_def split: option.splits)
next
  case (KeyChanged v)
  with assms show ?thesis by (simp add: invariant_state handleApiKeyChange_def)
next
  case (PromptChanged v)
  with assms show ?thesis by (simp add: invariant_state setPrompt_def)
next
  case (VariantChanged v)
  with assms show ?thesis by (simp add: invariant_state setModelVariant_def)
next
  case EditToggled
  with assms show ?thesis by (simp add: invariant_state toggleEditMode_def hasImage_def)
qed

lemma run_Cons: "run (e # es) c = run es (step e c)"
  by (simp add: run_def)

lemma invariant_run: "invariant c \<Longrightarrow> invariant (run es c)"
  by (induction es arbitrary: c) (simp_all add: run_def invariant_step)

lemma invariant_reachable: "invariant (run es (mounted saved))"
  by (simp add: invariant_run invariant_mounted)

subsection \<open>One generation at a time\<close>

lemma handleGenerate_guard:
  "isGenerating s \<or> trim (prompt s) = [] \<Longrightarrow> handleGenerate s = (s, None)"
  by (auto simp: handleGenerate_def)

lemma generateImage_Fetching:
  "generateImage p s = (s', Fetching) \<Longrightarrow>
     \<exists>r. requests s' = requests s @ [r] \<and> req_prompt r = p \<and> req_apiKey r = apiKey s
       \<and> req_variant r = modelVariant s"
  by (auto simp: generateImage_def Let_def split: if_splits jsval.splits)

lemma handleGenerate_started:
  assumes "handleGenerate s = (s1, Some k)"
  shows "\<not> isGenerating s \<and> trim (prompt s) \<noteq> [] \<and> isGenerating s1
    \<and> (\<exists>promise. k = AwaitGenerate (currentImageUrl s) promise
         \<and> (promise = Fetching \<longrightarrow>
              (\<exists>r. requests s1 = requests s @ [r] \<and> req_prompt r = trim (prompt s))))"
proof -
  from assms have guard: "\<not> isGenerating s" "trim (prompt s) \<noteq> []"
    by (auto simp: handleGenerate_def Let_def split: if_splits)
  let ?s2 = "start_timer (s\<lparr>isGenerating := True, showLoading := True,
      loadingComplete := False, genTime := ''0.0s''\<rparr>)"
  obtain s3 pr where g: "generateImage (trim (prompt s)) ?s2 = (s3, pr)"
    by (cases "generateImage (trim (prompt s)) ?s2")
  with guard assms have eq: "s1 = s3" "k = AwaitGenerate (currentImageUrl s) pr"
    by (simp_all add: handleGenerate_def Let_def)
  from generateImage_keeps [OF g] have "isGenerating s3" by (simp add: start_timer_def)
  moreover have "pr = Fetching \<longrightarrow>
      (\<exists>r. requests s3 = requests s @ [r] \<and> req_prompt r = trim (prompt s))"
  proof
    assume "pr = Fetching"
    with g generateImage_Fetching [of "trim (prompt s)" ?s2 s3]
    show "\<exists>r. requests s3 = requests s @ [r] \<and> req_prompt r = trim (prompt s)"
      by (auto simp: start_timer_def)
  qed
  ultimately show ?thesis using guard eq by simp
qed

lemma quiet_step:
  assumes "isGenerating (state c)" and "\<not> resolves e"
  shows "isGenerating (state (step e c)) \<and> requests (state (step e c)) = requests (state c)
    \<and> generations (step e c) = generations c"
proof (cases e)
  case Generate
  with assms handleGenerate_guard [of "state c"] show ?thesis by simp
next
  case (Drop f)
  with assms show ?thesis by (simp add: handleDrop_def Let_def split: option.splits)
next
  case (FileRead i dataUrl url)
  with assms show ?thesis by (simp add: handleDrop_read_def Let_def split: option.splits)
qed (use assms in \<open>simp_all add: timer_tick_def animation_frame_def handleDragEnter_def
    handleDragOver_def handleDragLeave_def handleApiKeyChange_def setPrompt_def
    setModelVariant_def toggleEditMode_def hasImage_def Let_def\<close>)

lemma quiet_run:
  assumes "isGenerating (state c)" and "list_all (\<lambda>e. \<not> resolves e) es"
  shows "isGenerating (state (run es c)) \<and> requests (state (run es c)) = requests (state c)
    \<and> generations (run es c) = generations c"
  using assms
proof (induction es arbitrary: c)
  case Nil
  then show ?case by (simp add: run_def)
next
  case (Cons e es)
  from Cons.prems have "\<not> resolves e" "list_all (\<lambda>e. \<not> resolves e) es" by simp_all
  with Cons.prems(1) quiet_step [of c e] Cons.IH [of "step e c"]
  show ?case by (simp add: run_Cons)
qed

text \<open>
  Claim C3. Let a session be reached from a freshly mounted component by any events.
  If a generation is in flight in it (a handler is suspended), a trigger is a no-op: it
  changes nothing and starts nothing. A trigger whose trimmed prompt is empty is a no-op
  as well. And when a trigger posts a request, then whatever events follow that do not
  resume the generation (further triggers among them, so three triggers in succession),
  the requests posted are the ones before with exactly that one request added, and the
  one generation is still the only one in flight.
\<close>

theorem one_generation_at_a_time:
  assumes "c = run es0 (mounted saved)"
  shows "(generations c \<noteq> [] \<longrightarrow> step Generate c = c)
    \<and> (trim (prompt (state c)) = [] \<longrightarrow> step Generate c = c)
    \<and> (handleGenerate (state c) = (s1, Some (AwaitGenerate captured Fetching))
         \<and> list_all (\<lambda>e. \<not> resolves e) es \<longrightarrow>
       (\<exists>r. requests (state (run (Generate # es) c)) = requests (state c) @ [r]
          \<and> req_prompt r = trim (prompt (state c))
          \<and> generations (run (Generate # es) c) = [AwaitGenerate captured Fetching]))"
proof (intro conjI impI)
  from assms have inv: "invariant c" by (simp add: invariant_reachable)
  {
    assume "generations c \<noteq> []"
    with inv have "isGenerating (state c)"
      by (auto simp: invariant_def dest: phase_ok_idle)
    then show "step Generate c = c" by (simp add: handleGenerate_guard)
  next
    assume "trim (prompt (state c)) = []"
    then show "step Generate c = c" by (simp add: handleGenerate_guard)
  next
    assume a: "handleGenerate (state c) = (s1, Some (AwaitGenerate captured Fetching))
      \<and> list_all (\<lambda>e. \<not> resolves e) es"
    with handleGenerate_started [of "state c" s1 "AwaitGenerate captured Fetching"]
    obtain r where r: "\<not> isGenerating (state c)" "isGenerating s1"
      "requests s1 = requests (state c) @ [r]" "req_prompt r = trim (prompt (state c))"
      by auto
    from inv r(1) have idle: "generations c = []"
      by (auto simp: invariant_def dest: phase_ok_idle)
    let ?c1 = "step Generate c"
    from a idle have c1: "state ?c1 = s1" "generations ?c1 = [AwaitGenerate captured Fetching]"
      by simp_all
    with r(2) a quiet_run [of ?c1 es]
    have "requests (state (run es ?c1)) = requests s1"
      "generations (run es ?c1) = [AwaitGenerate captured Fetching]"
      by simp_all
    with r(3,4)
    show "\<exists>r. requests (state (run (Generate # es) c)) = requests (state c) @ [r]
          \<and> req_prompt r = trim (prompt (state c))
          \<and> generations (run (Generate # es) c) = [AwaitGenerate captured Fetching]"
      by (simp add: run_Cons)
  }
qed

theorem one_generation_at_a_time_witness:
  "requests (state (run [KeyChanged ''test-key'', PromptChanged ''a cat'',
       Generate, Generate, Generate] (mounted None)))
     = [\<lparr>req_prompt = ''a cat'', req_apiKey = ''test-key'', req_variant = ''9b'',
         req_image = None, req_imageUrl = None\<rparr>]
   \<and> generations (run [KeyChanged ''test-key'', PromptChanged ''a cat'',
       Generate, Generate, Generate] (mounted None)) = [AwaitGenerate JNull Fetching]
   \<and> step Generate (run [KeyChanged ''test-key'', PromptChanged ''a cat'', Generate]
       (mounted None))
     = run [KeyChanged ''test-key'', PromptChanged ''a cat'', Generate] (mounted None)
   \<and> step Generate (run [KeyChanged ''test-key'', PromptChanged ''   ''] (mounted None))
     = run [KeyChanged ''test-key'', PromptChanged ''   ''] (mounted None)"
proof -
  let ?idle = "run [KeyChanged ''test-key'', PromptChanged ''a cat''] (mounted None)"
  let ?busy = "run [KeyChanged ''test-key'', PromptChanged ''a cat'', Generate] (mounted None)"
  let ?blank = "run [KeyChanged ''test-key'', PromptChanged ''   ''] (mounted None)"
  have busy: "generations ?busy \<noteq> []" and blank: "trim (prompt (state ?blank)) = []"
    by (simp_all add: session_eval)
  have start: "handleGenerate (state ?idle)
      = (state ?busy, Some (AwaitGenerate JNull Fetching))"
    and more: "list_all (\<lambda>e. \<not> resolves e) [Generate, Generate]"
    by (simp_all add: session_eval)
  have three: "run (Generate # [Generate, Generate]) ?idle
      = run [KeyChanged ''test-key'', PromptChanged ''a cat'', Generate, Generate, Generate]
          (mounted None)"
    by (simp add: run_def)
  have r0: "requests (state ?idle) = []" "trim (prompt (state ?idle)) = ''a cat''"
    by (simp_all add: session_eval)
  from one_generation_at_a_time [OF refl, of "[KeyChanged ''test-key'',
      PromptChanged ''a cat'', Generate]" None] busy
  have a: "step Generate ?busy = ?busy" by blast
  from one_generation_at_a_time [OF refl, of "[KeyChanged ''test-key'',
      PromptChanged ''   '']" None] blank
  have b: "step Generate ?blank = ?blank" by blast
  from one_generation_at_a_time [OF refl, of "[KeyChanged ''test-key'',
      PromptChanged ''a cat'']" None "state ?busy" JNull "[Generate, Generate]"] start more
  obtain r where r: "requests (state (run (Generate # [Generate, Generate]) ?idle))
        = requests (state ?idle) @ [r]"
      "generations (run (Generate # [Generate, Generate]) ?idle) = [AwaitGenerate JNull Fetching]"
    by blast
  from r(2) have "generations (run [KeyChanged ''test-key'', PromptChanged ''a cat'',
       Generate, Generate, Generate] (mounted None)) = [AwaitGenerate JNull Fetching]"
    by (simp only: three)
  moreover have "requests (state (run [KeyChanged ''test-key'', PromptChanged ''a cat'',
       Generate, Generate, Generate] (mounted None)))
     = [\<lparr>req_prompt = ''a cat'', req_apiKey = ''test-key'', req_variant = ''9b'',
         req_image = None, req_imageUrl = None\<rparr>]"
    by (simp add: session_eval)
  ultimately show ?thesis using a b by blast
qed

subsection \<open>A trigger without a credential\<close>

text \<open>
  Claim C6, as amended. For every trigger in an idle state with a non-empty trimmed
  prompt but no credential, the controller shows the warning
  \<^verbatim>\<open>Please enter your BFL API key\<close> and posts no request. It does enter Submitting:
  before the credential is looked at, the generating flag is set, the readout shows
  \<^verbatim>\<open>0.0s\<close> and the timer is started. When the generation then resumes, with a result of
  \<^verbatim>\<open>null\<close>, the timer is cleared, the readout shows the elapsed time, the generating
  flag is reset, and still no request has been posted, no further alert shown, and the
  current and the previous image are as they were.
\<close>

theorem missing_key_warns_without_request:
  assumes "\<not> isGenerating s" and "trim (prompt s) \<noteq> []" and "apiKey s = []"
  shows "\<exists>s1. handleGenerate s
        = (s1, Some (AwaitGenerate (currentImageUrl s) (Settled (Return JNull))))
     \<and> alerts s1 = alerts s @ [Text ''Please enter your BFL API key'']
     \<and> requests s1 = requests s
     \<and> isGenerating s1 \<and> genTime s1 = ''0.0s''
     \<and> timerIntervalRef s1 = Some (Suc (lastHandle s))
     \<and> intervals s1 = Suc (lastHandle s) # intervals s
     \<and> (\<exists>s2. handleGenerate_settled (currentImageUrl s)
                 (generate_outcome (Settled (Return JNull)) x) elapsed s1 = (s2, None)
          \<and> \<not> isGenerating s2 \<and> genTime s2 = elapsed
          \<and> intervals s2 = removeAll (Suc (lastHandle s)) (intervals s)
          \<and> cleared s2 = cleared s @ [Suc (lastHandle s)]
          \<and> requests s2 = requests s \<and> alerts s2 = alerts s1
          \<and> currentImageUrl s2 = currentImageUrl s
          \<and> previousImageUrl s2 = previousImageUrl s)"
  using assms
  by (simp add: handleGenerate_def generateImage_def start_timer_def
      handleGenerate_settled_def clear_timer_def Let_def)

text \<open>
  Counterexample to claim C6 as stated: a freshly mounted component with the prompt
  \<^verbatim>\<open>a cat\<close> and no credential. After the trigger the generating flag is set, a timer
  is running and the readout shows \<^verbatim>\<open>0.0s\<close>.
\<close>

theorem missing_key_enters_submitting:
  "apiKey (state (run [PromptChanged ''a cat''] (mounted None))) = []
   \<and> \<not> isGenerating (state (run [PromptChanged ''a cat''] (mounted None)))
   \<and> isGenerating (state (run [PromptChanged ''a cat'', Generate] (mounted None)))
   \<and> intervals (state (run [PromptChanged ''a cat'', Generate] (mounted None))) = [1]
   \<and> genTime (state (run [PromptChanged ''a cat'', Generate] (mounted None))) = ''0.0s''
   \<and> alerts (state (run [PromptChanged ''a cat'', Generate] (mounted None)))
       = [Text ''Please enter your BFL API key'']"
  by (simp add: session_eval)

theorem missing_key_warns_without_request_witness:
  "handleGenerate (state (run [PromptChanged ''a cat''] (mounted None)))
     = (state (run [PromptChanged ''a cat'', Generate] (mounted None)),
        Some (AwaitGenerate JNull (Settled (Return JNull))))
   \<and> requests (state (run [PromptChanged ''a cat'', Generate] (mounted None))) = []
   \<and> alerts (state (run [PromptChanged ''a cat'', Generate] (mounted None)))
       = [Text ''Please enter your BFL API key'']
   \<and> \<not> isGenerating (state (run [PromptChanged ''a cat'', Generate,
         Settle 0 NetworkError ''0.0s''] (mounted None)))
   \<and> intervals (state (run [PromptChanged ''a cat'', Generate,
         Settle 0 NetworkError ''0.0s''] (mounted None))) = []
   \<and> requests (state (run [PromptChanged ''a cat'', Generate,
         Settle 0 NetworkError ''0.0s''] (mounted None))) = []"
proof -
  let ?s = "state (run [PromptChanged ''a cat''] (mounted None))"
  have "\<not> isGenerating ?s" "trim (prompt ?s) \<noteq> []" "apiKey ?s = []"
    by (simp_all add: session_eval)
  from missing_key_warns_without_request [OF this, of NetworkError "''0.0s''"]
  show ?thesis by (simp add: session_eval)
qed

subsection \<open>The timer\<close>

text \<open>
  Claim C7, as amended. In every session reached from a freshly mounted component:
  when the controller is not generating, no timer is running, and a tick of a timer
  started earlier changes nothing. While a generation waits for \<^verbatim>\<open>generateImage\<close>,
  exactly its timer is running and \<^verbatim>\<open>clearInterval\<close> has not been called for it; when
  \<^verbatim>\<open>generateImage\<close> settles, whatever the outcome, the timer is stopped by one call of
  \<^verbatim>\<open>clearInterval\<close>, and if it settled with an error (the network, or a response of
  the proxy that is not \<^verbatim>\<open>ok\<close> or does not parse) the generation is over and the
  readout is empty, else the readout shows the elapsed time. While a generation waits
  for the preload, no timer is running and \<^verbatim>\<open>clearInterval\<close> has been called once for
  its timer; if the image loads there is no further call; if it fails to load,
  \<^verbatim>\<open>clearInterval\<close> is called a second time, for the timer that is already stopped,
  and the readout is empty. Either way the generation is over, the flag is reset and no
  timer is running.
\<close>

theorem timer_stopped_when_generation_settles:
  assumes "c = run es (mounted saved)"
  shows "(\<not> isGenerating (state c) \<longrightarrow>
         intervals (state c) = [] \<and> step (Tick h tick) c = c)
    \<and> (generations c = [AwaitGenerate captured promise] \<longrightarrow>
         intervals (state c) = [lastHandle (state c)]
       \<and> count_list (cleared (state c)) (lastHandle (state c)) = 0
       \<and> intervals (state (step (Settle 0 x elapsed) c)) = []
       \<and> cleared (state (step (Settle 0 x elapsed) c))
           = cleared (state c) @ [lastHandle (state c)]
       \<and> (case generate_outcome promise x of
             Throw e \<Rightarrow> genTime (state (step (Settle 0 x elapsed) c)) = []
               \<and> generations (step (Settle 0 x elapsed) c) = []
           | Return imageUrl \<Rightarrow> genTime (state (step (Settle 0 x elapsed) c)) = elapsed))
    \<and> (generations c = [AwaitPreload captured imageUrl] \<longrightarrow>
         intervals (state c) = []
       \<and> count_list (cleared (state c)) (lastHandle (state c)) = 1
       \<and> cleared (state (step (Preloaded 0 True) c)) = cleared (state c)
       \<and> cleared (state (step (Preloaded 0 False) c))
           = cleared (state c) @ [lastHandle (state c)]
       \<and> genTime (state (step (Preloaded 0 False) c)) = []
       \<and> intervals (state (step (Preloaded 0 loaded) c)) = []
       \<and> generations (step (Preloaded 0 loaded) c) = []
       \<and> \<not> isGenerating (state (step (Preloaded 0 loaded) c)))"
proof (intro conjI impI)
  from assms have inv: "invariant c" by (simp add: invariant_reachable)
  {
    assume "\<not> isGenerating (state c)"
    with inv have "generations c = []"
      by (auto simp: invariant_def dest: phase_ok_idle)
    with inv have "intervals (state c) = []" by (simp add: invariant_def)
    then show "intervals (state c) = []" and "step (Tick h tick) c = c"
      by (simp_all add: timer_tick_def)
  }
  {
    assume g: "generations c = [AwaitGenerate captured promise]"
    with inv have ph: "intervals (state c) = [lastHandle (state c)]"
      "timerIntervalRef (state c) = Some (lastHandle (state c))" "0 < lastHandle (state c)"
      "count_list (cleared (state c)) (lastHandle (state c)) = 0"
      by (simp_all add: invariant_def)
    note ct = clear_timer_running [OF ph(2,3)]
    from ph show "intervals (state c) = [lastHandle (state c)]"
      and "count_list (cleared (state c)) (lastHandle (state c)) = 0"
      by simp_all
    from g ph ct show "intervals (state (step (Settle 0 x elapsed) c)) = []"
      and "cleared (state (step (Settle 0 x elapsed) c))
           = cleared (state c) @ [lastHandle (state c)]"
      and "case generate_outcome promise x of
             Throw e \<Rightarrow> genTime (state (step (Settle 0 x elapsed) c)) = []
               \<and> generations (step (Settle 0 x elapsed) c) = []
           | Return imageUrl \<Rightarrow> genTime (state (step (Settle 0 x elapsed) c)) = elapsed"
      by (cases "generate_outcome promise x";
          simp add: handleGenerate_settled_def catch_block_def remove_nth_def Let_def)+
  }
  {
    assume g: "generations c = [AwaitPreload captured imageUrl]"
    with inv have ph: "intervals (state c) = []"
      "timerIntervalRef (state c) = Some (lastHandle (state c))" "0 < lastHandle (state c)"
      "count_list (cleared (state c)) (lastHandle (state c)) = 1"
      by (simp_all add: invariant_def)
    note ct = clear_timer_running [OF ph(2,3)]
    from ph show "intervals (state c) = []"
      and "count_list (cleared (state c)) (lastHandle (state c)) = 1"
      by simp_all
    from g ph ct show "cleared (state (step (Preloaded 0 True) c)) = cleared (state c)"
      and "cleared (state (step (Preloaded 0 False) c))
           = cleared (state c) @ [lastHandle (state c)]"
      and "genTime (state (step (Preloaded 0 False) c)) = []"
      and "intervals (state (step (Preloaded 0 loaded) c)) = []"
      and "generations (step (Preloaded 0 loaded) c) = []"
      and "\<not> isGenerating (state (step (Preloaded 0 loaded) c))"
      by (simp_all add: handleGenerate_preloaded_def catch_block_def remove_nth_def Let_def)
  }
qed

theorem timer_stopped_when_generation_settles_witness:
  "intervals (state (run [KeyChanged ''test-key'', PromptChanged ''a cat'', Generate]
      (mounted None))) = [1]
   \<and> intervals (state (run [KeyChanged ''test-key'', PromptChanged ''a cat'', Generate,
        Settle 0 (Responded \<lparr>ok = False, status = 500,
          json = Some (JObj [(''error'', JStr ''Server error'')]),
          text_body = None, arrayBuffer = None\<rparr>) ''0.8s''] (mounted None))) = []
   \<and> cleared (state (run [KeyChanged ''test-key'', PromptChanged ''a cat'', Generate,
        Settle 0 (Responded \<lparr>ok = False, status = 500,
          json = Some (JObj [(''error'', JStr ''Server error'')]),
          text_body = None, arrayBuffer = None\<rparr>) ''0.8s''] (mounted None))) = [1]
   \<and> genTime (state (run [KeyChanged ''test-key'', PromptChanged ''a cat'', Generate,
        Settle 0 (Responded \<lparr>ok = False, status = 500,
          json = Some (JObj [(''error'', JStr ''Server error'')]),
          text_body = None, arrayBuffer = None\<rparr>) ''0.8s''] (mounted None))) = []
   \<and> cleared (state (run [KeyChanged ''test-key'', PromptChanged ''a cat'', Generate,
        Settle 0 (Responded \<lparr>ok = True, status = 200,
          json = Some (JObj [(''url'', JStr ''https://example.com/image.png'')]),
          text_body = None, arrayBuffer = None\<rparr>) ''1.2s'', Preloaded 0 True] (mounted None))) = [1]
   \<and> genTime (state (run [KeyChanged ''test-key'', PromptChanged ''a cat'', Generate,
        Settle 0 (Responded \<lparr>ok = True, status = 200,
          json = Some (JObj [(''url'', JStr ''https://example.com/image.png'')]),
          text_body = None, arrayBuffer = None\<rparr>) ''1.2s'', Preloaded 0 False] (mounted None))) = []
   \<and> intervals (state (run [KeyChanged ''test-key'', PromptChanged ''a cat'', Generate,
        Settle 0 (Responded \<lparr>ok = True, status = 200,
          json = Some (JObj [(''url'', JStr ''https://example.com/image.png'')]),
          text_body = None, arrayBuffer = None\<rparr>) ''1.2s'', Preloaded 0 False] (mounted None))) = []"
proof -
  let ?start = "[KeyChanged ''test-key'', PromptChanged ''a cat'', Generate]"
  let ?err = "Responded \<lparr>ok = False, status = 500,
      json = Some (JObj [(''error'', JStr ''Server error'')]), text_body = None, arrayBuffer = None\<rparr>"
  let ?img = "Responded \<lparr>ok = True, status = 200,
      json = Some (JObj [(''url'', JStr ''https://example.com/image.png'')]),
      text_body = None, arrayBuffer = None\<rparr>"
  let ?c1 = "run ?start (mounted None)"
  let ?c2 = "run (?start @ [Settle 0 ?img ''1.2s'']) (mounted None)"
  have g1: "generations ?c1 = [AwaitGenerate JNull Fetching]"
    and g2: "generations ?c2 = [AwaitPreload JNull (JStr ''https://example.com/image.png'')]"
    by (simp_all add: session_eval)
  have thrown: "generate_outcome Fetching ?err = Throw (Error ''Server error'')"
    by (simp add: generateImage_fetched_def js_or_def)
  have h1: "lastHandle (state ?c1) = 1" "cleared (state ?c1) = []"
    and h2: "lastHandle (state ?c2) = 1" "cleared (state ?c2) = [1]"
    by (simp_all add: session_eval)
  from timer_stopped_when_generation_settles
         [OF refl, where es = ?start and saved = None and captured = JNull
            and promise = Fetching and x = ?err and elapsed = "''0.8s''"] g1 thrown h1
  have a: "intervals (state ?c1) = [1]"
    "intervals (state (step (Settle 0 ?err ''0.8s'') ?c1)) = []"
    "cleared (state (step (Settle 0 ?err ''0.8s'') ?c1)) = [1]"
    "genTime (state (step (Settle 0 ?err ''0.8s'') ?c1)) = []"
    by simp_all
  from timer_stopped_when_generation_settles
         [OF refl, where es = "?start @ [Settle 0 ?img ''1.2s'']" and saved = None
            and captured = JNull
            and imageUrl = "JStr ''https://example.com/image.png''"] g2 h2
  have b: "cleared (state (step (Preloaded 0 True) ?c2)) = [1]"
    "genTime (state (step (Preloaded 0 False) ?c2)) = []"
    by simp_all
  have idle: "\<not> isGenerating (state (run (?start @ [Settle 0 ?img ''1.2s'', Preloaded 0 False])
      (mounted None)))"
    by (simp add: session_eval)
  from timer_stopped_when_generation_settles
         [OF refl, where es = "?start @ [Settle 0 ?img ''1.2s'', Preloaded 0 False]"
            and saved = None] idle
  have c: "intervals (state (run (?start @ [Settle 0 ?img ''1.2s'', Preloaded 0 False])
      (mounted None))) = []"
    by blast
  from a b c show ?thesis by (simp add: run_def)
qed

text \<open>
  Counterexample to claim C7 as stated: a generation whose image fails to load. The timer
  of the attempt has the handle 1; \<^verbatim>\<open>clearInterval(1)\<close> is called when
  \<^verbatim>\<open>generateImage\<close> returns (line 113) and again in the \<^verbatim>\<open>catch\<close> block (line 146):
  two stop calls in one attempt. And an attempt that ends at the missing credential (it
  made no \<^verbatim>\<open>fetch\<close>, so the outcome given to \<open>Settle\<close> is not read) leaves the
  readout showing the elapsed time, not empty.
\<close>

theorem preload_failure_clears_timer_twice:
  "timerIntervalRef (state (run [KeyChanged ''test-key'', PromptChanged ''a cat'', Generate]
      (mounted None))) = Some 1
   \<and> cleared (state (run [KeyChanged ''test-key'', PromptChanged ''a cat'', Generate,
        Settle 0 (Responded \<lparr>ok = True, status = 200,
          json = Some (JObj [(''url'', JStr ''https://example.com/image.png'')]),
          text_body = None, arrayBuffer = None\<rparr>) ''1.2s''] (mounted None))) = [1]
   \<and> cleared (state (run [KeyChanged ''test-key'', PromptChanged ''a cat'', Generate,
        Settle 0 (Responded \<lparr>ok = True, status = 200,
          json = Some (JObj [(''url'', JStr ''https://example.com/image.png'')]),
          text_body = None, arrayBuffer = None\<rparr>) ''1.2s'', Preloaded 0 False] (mounted None)))
       = [1, 1]
   \<and> alerts (state (run [PromptChanged ''a cat'', Generate, Settle 0 NetworkError ''0.0s'']
        (mounted None))) = [Text ''Please enter your BFL API key'']
   \<and> genTime (state (run [PromptChanged ''a cat'', Generate, Settle 0 NetworkError ''0.0s'']
        (mounted None))) = ''0.0s''"
  by (simp add: session_eval)

subsection \<open>Crossfade\<close>

lemma handleGenerate_settled_preload:
  assumes "handleGenerate_settled captured res elapsed t = (t', Some k)"
  shows "\<exists>imageUrl. res = Return imageUrl \<and> truthy imageUrl
    \<and> k = AwaitPreload captured imageUrl"
  using assms
  by (cases res) (auto simp: handleGenerate_settled_def Let_def split: if_splits)

text \<open>
  Claim C8. Let a generation be triggered in a state \<open>s\<close> that has a current image, and
  let it go on to the preload: then \<^verbatim>\<open>generateImage\<close> has returned a URL. Once the
  image has loaded, the previous image is the one that was current in \<open>s\<close>, and the
  current image is the URL returned. This holds whatever happened to the state between
  the trigger and the two resumptions (\<open>t1\<close>, \<open>t3\<close> are arbitrary): the handler uses the
  \<^verbatim>\<open>currentImageUrl\<close> its closure captured at the trigger.
\<close>

theorem crossfade_keeps_previous:
  assumes "handleGenerate s = (s1, Some (AwaitGenerate captured promise))"
    and "truthy (currentImageUrl s)"
    and "handleGenerate_settled captured (generate_outcome promise x) elapsed t1 = (t2, Some k)"
  shows "\<exists>imageUrl. generate_outcome promise x = Return imageUrl
    \<and> k = AwaitPreload (currentImageUrl s) imageUrl
    \<and> previousImageUrl (handleGenerate_preloaded (currentImageUrl s) imageUrl True t3)
        = currentImageUrl s
    \<and> currentImageUrl (handleGenerate_preloaded (currentImageUrl s) imageUrl True t3)
        = imageUrl"
proof -
  from assms(1) handleGenerate_started [of s s1 "AwaitGenerate captured promise"]
  have cap: "captured = currentImageUrl s" by auto
  from handleGenerate_settled_preload [OF assms(3)] obtain imageUrl where
    "generate_outcome promise x = Return imageUrl" "k = AwaitPreload captured imageUrl"
    by blast
  with cap assms(2) show ?thesis
    by (simp add: handleGenerate_preloaded_def Let_def)
qed

theorem crossfade_keeps_previous_witness:
  "previousImageUrl (state (run [KeyChanged ''test-key'', PromptChanged ''a cat'', Generate,
      Settle 0 (Responded \<lparr>ok = True, status = 200,
        json = Some (JObj [(''url'', JStr ''https://example.com/first.png'')]),
        text_body = None, arrayBuffer = None\<rparr>) ''1.2s'',
      Preloaded 0 True, PromptChanged ''a dog'', Generate,
      Settle 0 (Responded \<lparr>ok = True, status = 200,
        json = Some (JObj [(''url'', JStr ''https://example.com/second.png'')]),
        text_body = None, arrayBuffer = None\<rparr>) ''0.9s'',
      Preloaded 0 True] (mounted None)))
     = JStr ''https://example.com/first.png''
   \<and> currentImageUrl (state (run [KeyChanged ''test-key'', PromptChanged ''a cat'', Generate,
      Settle 0 (Responded \<lparr>ok = True, status = 200,
        json = Some (JObj [(''url'', JStr ''https://example.com/first.png'')]),
        text_body = None, arrayBuffer = None\<rparr>) ''1.2s'',
      Preloaded 0 True, PromptChanged ''a dog'', Generate,
      Settle 0 (Responded \<lparr>ok = True, status = 200,
        json = Some (JObj [(''url'', JStr ''https://example.com/second.png'')]),
        text_body = None, arrayBuffer = None\<rparr>) ''0.9s'',
      Preloaded 0 True] (mounted None)))
     = JStr ''https://example.com/second.png''"
proof -
  let ?first = "Responded \<lparr>ok = True, status = 200,
      json = Some (JObj [(''url'', JStr ''https://example.com/first.png'')]),
      text_body = None, arrayBuffer = None\<rparr>"
  let ?second = "Responded \<lparr>ok = True, status = 200,
      json = Some (JObj [(''url'', JStr ''https://example.com/second.png'')]),
      text_body = None, arrayBuffer = None\<rparr>"
  let ?es = "[KeyChanged ''test-key'', PromptChanged ''a cat'', Generate,
      Settle 0 ?first ''1.2s'', Preloaded 0 True, PromptChanged ''a dog'']"
  let ?c = "run ?es (mounted None)"
  let ?c1 = "run (?es @ [Generate]) (mounted None)"
  let ?c2 = "run (?es @ [Generate, Settle 0 ?second ''0.9s'']) (mounted None)"
  let ?c3 = "run (?es @ [Generate, Settle 0 ?second ''0.9s'', Preloaded 0 True]) (mounted None)"
  have cur: "currentImageUrl (state ?c) = JStr ''https://example.com/first.png''"
    by (simp add: session_eval)
  have start: "handleGenerate (state ?c)
      = (state ?c1, Some (AwaitGenerate (JStr ''https://example.com/first.png'') Fetching))"
    by (simp add: session_eval)
  have settle: "handleGenerate_settled (JStr ''https://example.com/first.png'')
        (generate_outcome Fetching ?second) ''0.9s'' (state ?c1)
      = (state ?c2,
         Some (AwaitPreload (JStr ''https://example.com/first.png'')
           (JStr ''https://example.com/second.png'')))"
    by (simp add: session_eval)
  have last: "state ?c3 = handleGenerate_preloaded (JStr ''https://example.com/first.png'')
      (JStr ''https://example.com/second.png'') True (state ?c2)"
    by (simp add: session_eval)
  from cur have "truthy (currentImageUrl (state ?c))" by simp
  from crossfade_keeps_previous [OF start this settle, of "state ?c2"] cur last
  have "previousImageUrl (state ?c3) = JStr ''https://example.com/first.png''
      \<and> currentImageUrl (state ?c3) = JStr ''https://example.com/second.png''"
    by auto
  then show ?thesis by simp
qed

subsection \<open>Drag state\<close>

lemma handleGenerate_keeps_drag:
  "dragCounterRef (fst (handleGenerate s)) = dragCounterRef s
   \<and> isDragOver (fst (handleGenerate s)) = isDragOver s"
proof (cases "trim (prompt s) = [] \<or> isGenerating s")
  case True
  then show ?thesis by (auto simp: handleGenerate_def)
next
  case False
  let ?s2 = "start_timer (s\<lparr>isGenerating := True, showLoading := True,
      loadingComplete := False, genTime := ''0.0s''\<rparr>)"
  obtain s3 pr where g: "generateImage (trim (prompt s)) ?s2 = (s3, pr)"
    by (cases "generateImage (trim (prompt s)) ?s2")
  with False have "fst (handleGenerate s) = s3"
    by (simp add: handleGenerate_def Let_def)
  with generateImage_keeps [OF g] show ?thesis by (simp add: start_timer_def)
qed

lemma settled_keeps_drag:
  "dragCounterRef (fst (handleGenerate_settled captured res elapsed s)) = dragCounterRef s
   \<and> isDragOver (fst (handleGenerate_settled captured res elapsed s)) = isDragOver s"
  by (cases res)
    (simp_all add: handleGenerate_settled_def catch_block_def clear_timer_def Let_def
      split: option.splits)

lemma preloaded_keeps_drag:
  "dragCounterRef (handleGenerate_preloaded captured imageUrl loaded s) = dragCounterRef s
   \<and> isDragOver (handleGenerate_preloaded captured imageUrl loaded s) = isDragOver s"
  by (simp add: handleGenerate_preloaded_def catch_block_def clear_timer_def Let_def
      split: option.splits)

lemma other_events_keep_drag:
  assumes "e \<noteq> DragEnter" and "e \<noteq> DragLeave" and "\<And>f. e \<noteq> Drop f"
  shows "dragCounterRef (state (step e c)) = dragCounterRef (state c)
    \<and> isDragOver (state (step e c)) = isDragOver (state c)"
proof (cases e)
  case Generate
  with handleGenerate_keeps_drag [of "state c"] show ?thesis
    by (cases "handleGenerate (state c)") (auto split: option.splits)
next
  case (Settle i x elapsed)
  show ?thesis
  proof (cases "i < length (generations c)")
    case False
    with Settle show ?thesis by simp
  next
    case True
    show ?thesis
    proof (cases "generations c ! i")
      case (AwaitPreload captured imageUrl)
      with True Settle show ?thesis by simp
    next
      case (AwaitGenerate captured promise)
      with True Settle
        settled_keeps_drag [of captured "generate_outcome promise x" elapsed "state c"]
      show ?thesis
        by (cases "handleGenerate_settled captured (generate_outcome promise x) elapsed (state c)")
          (auto split: option.splits)
    qed
  qed
next
  case (Preloaded i loaded)
  with preloaded_keeps_drag show ?thesis
    by (simp split: suspended.splits)
next
  case (FileRead i dataUrl url)
  then show ?thesis by (simp add: handleDrop_read_def Let_def split: option.splits)
qed (use assms in \<open>simp_all add: timer_tick_def animation_frame_def handleDragOver_def
    handleApiKeyChange_def setPrompt_def setModelVariant_def toggleEditMode_def
    hasImage_def\<close>)

lemma drag_invariant_step:
  assumes "nested d (e # es)" and "dragCounterRef (state c) = int d"
    and "isDragOver (state c) = (0 < d)"
  shows "\<exists>d'. nested d' es \<and> dragCounterRef (state (step e c)) = int d'
    \<and> isDragOver (state (step e c)) = (0 < d')"
proof (cases e)
  case DragEnter
  with assms have "nested (Suc d) es" "dragCounterRef (state (step e c)) = int (Suc d)"
    "isDragOver (state (step e c)) = (0 < Suc d)"
    by (simp_all add: handleDragEnter_def)
  then show ?thesis by (intro exI [of _ "Suc d"]) simp
next
  case DragLeave
  with assms have "0 < d" "nested (d - 1) es" by simp_all
  with DragLeave assms have "dragCounterRef (state (step e c)) = int (d - 1)"
    "isDragOver (state (step e c)) = (0 < d - 1)"
    by (auto simp: handleDragLeave_def Let_def)
  with \<open>nested (d - 1) es\<close> show ?thesis
    by (intro exI [of _ "d - 1"]) simp
next
  case (Drop f)
  with assms have "nested 0 es" "dragCounterRef (state (step e c)) = int 0"
    "isDragOver (state (step e c)) = (0 < (0::nat))"
    by (simp_all add: handleDrop_def Let_def split: option.splits)
  then show ?thesis by (intro exI [of _ 0]) simp
qed (use assms other_events_keep_drag [of e c] in auto)

lemma drag_invariant_run:
  assumes "nested d es" and "dragCounterRef (state c) = int d"
    and "isDragOver (state c) = (0 < d)"
  shows "isDragOver (state (run es c)) = (0 < dragCounterRef (state (run es c)))"
  using assms
proof (induction es arbitrary: c d)
  case Nil
  then show ?case by (simp add: run_def)
next
  case (Cons e es)
  from drag_invariant_step [OF Cons.prems] obtain d' where
    "nested d' es" "dragCounterRef (state (step e c)) = int d'"
    "isDragOver (state (step e c)) = (0 < d')"
    by blast
  from Cons.IH [OF this] show ?case by (simp add: run_Cons)
qed

text \<open>
  Claim C9, as amended. Take a session in which the drag-active state is set exactly if
  the counter is positive (as after mounting), and any sequence of events in which every
  drag-leave is matched by an earlier drag-enter since the last drop. After it the
  drag-active state is again set exactly if the counter is positive. In every session a
  drag-enter adds one to the counter, a drag-leave takes one off, and a drop sets the
  counter to zero and clears the drag-active state, whatever the count was.
\<close>

theorem drag_state_follows_counter:
  assumes "nested (nat (dragCounterRef (state c))) es" and "0 \<le> dragCounterRef (state c)"
    and "isDragOver (state c) = (0 < dragCounterRef (state c))"
  shows "isDragOver (state (run es c)) = (0 < dragCounterRef (state (run es c)))
    \<and> dragCounterRef (state (step DragEnter c')) = dragCounterRef (state c') + 1
    \<and> dragCounterRef (state (step DragLeave c')) = dragCounterRef (state c') - 1
    \<and> dragCounterRef (state (step (Drop f) c')) = 0
    \<and> \<not> isDragOver (state (step (Drop f) c'))"
proof (intro conjI)
  from assms(2,3) have "dragCounterRef (state c) = int (nat (dragCounterRef (state c)))"
    "isDragOver (state c) = (0 < nat (dragCounterRef (state c)))"
    by simp_all
  from drag_invariant_run [OF assms(1) this]
  show "isDragOver (state (run es c)) = (0 < dragCounterRef (state (run es c)))" .
next
  show "dragCounterRef (state (step DragEnter c')) = dragCounterRef (state c') + 1"
    by (simp add: handleDragEnter_def)
next
  show "dragCounterRef (state (step DragLeave c')) = dragCounterRef (state c') - 1"
    by (simp add: handleDragLeave_def Let_def)
next
  show "dragCounterRef (state (step (Drop f) c')) = 0"
    by (simp add: handleDrop_def Let_def split: option.splits)
next
  show "\<not> isDragOver (state (step (Drop f) c'))"
    by (simp add: handleDrop_def Let_def split: option.splits)
qed

theorem drag_state_follows_counter_witness:
  "isDragOver (state (run [DragEnter, DragEnter, DragLeave] (mounted None)))
   \<and> dragCounterRef (state (run [DragEnter, DragEnter, DragLeave] (mounted None))) = 1
   \<and> \<not> isDragOver (state (run [DragEnter, DragEnter, DragLeave, DragLeave] (mounted None)))
   \<and> dragCounterRef (state (run [DragEnter, DragEnter, DragLeave, DragLeave] (mounted None))) = 0
   \<and> \<not> isDragOver (state (run [DragEnter, DragEnter, Drop None] (mounted None)))
   \<and> dragCounterRef (state (run [DragEnter, DragEnter, Drop None] (mounted None))) = 0"
proof -
  have start: "0 \<le> dragCounterRef (state (mounted None))"
    "isDragOver (state (mounted None)) = (0 < dragCounterRef (state (mounted None)))"
    by (simp_all add: mounted_def mount_def)
  have n1: "nested (nat (dragCounterRef (state (mounted None)))) [DragEnter, DragEnter, DragLeave]"
    and n2: "nested (nat (dragCounterRef (state (mounted None))))
        [DragEnter, DragEnter, DragLeave, DragLeave]"
    by (simp_all add: mounted_def mount_def)
  have c1: "dragCounterRef (state (run [DragEnter, DragEnter, DragLeave] (mounted None))) = 1"
    and c2: "dragCounterRef (state (run [DragEnter, DragEnter, DragLeave, DragLeave]
        (mounted None))) = 0"
    by (simp_all add: session_eval)
  have c3: "run [DragEnter, DragEnter, Drop None] (mounted None)
      = step (Drop None) (run [DragEnter, DragEnter] (mounted None))"
    by (simp add: run_def)
  from drag_state_follows_counter [OF n1 start] c1
  have "isDragOver (state (run [DragEnter, DragEnter, DragLeave] (mounted None)))"
    by simp
  moreover from drag_state_follows_counter [OF n2 start] c2
  have "\<not> isDragOver (state (run [DragEnter, DragEnter, DragLeave, DragLeave] (mounted None)))"
    by simp
  moreover from drag_state_follows_counter
      [OF n1 start, of "run [DragEnter, DragEnter] (mounted None)" None]
  have "\<not> isDragOver (state (step (Drop None) (run [DragEnter, DragEnter] (mounted None))))
      \<and> dragCounterRef (state (step (Drop None) (run [DragEnter, DragEnter] (mounted None)))) = 0"
    by blast
  then have "\<not> isDragOver (state (run [DragEnter, DragEnter, Drop None] (mounted None)))
      \<and> dragCounterRef (state (run [DragEnter, DragEnter, Drop None] (mounted None))) = 0"
    by (simp only: c3) simp
  ultimately show ?thesis using c1 c2 by blast
qed

text \<open>
  Counterexample to claim C9 as stated: a drag-leave followed by a drag-enter on a
  freshly mounted component. The counter goes to -1 and back to 0, and the drag-active
  state is set while the counter is not positive.
\<close>

theorem unmatched_leave_breaks_drag_state:
  "isDragOver (state (run [DragLeave, DragEnter] (mounted None)))
   \<and> dragCounterRef (state (run [DragLeave, DragEnter] (mounted None))) = 0"
  by (simp add: session_eval)

end
